theory Spec2Isabelle
  imports Complex_Main
begin

section \<open>Python strings\<close>

text \<open>
  A Python \<open>str\<close> is modelled as a \<open>string\<close>; a character stands for the code point
  of the same number, so the model covers the code points below 256.
  \<open>py_isspace\<close> lists the code points below 256 that \<open>str.strip()\<close> removes.
\<close>

definition py_isspace :: "char \<Rightarrow> bool" where
  "py_isspace c = (of_char c \<in> {9, 10, 11, 12, 13, 28, 29, 30, 31, 32, 133, 160 :: nat})"

definition py_strip :: "string \<Rightarrow> string" where
  "py_strip s = rev (dropWhile py_isspace (rev (dropWhile py_isspace s)))"

text \<open>\<open>blank s\<close> is the test \<open>not s.strip()\<close> of the source.\<close>

definition blank :: "string \<Rightarrow> bool" where
  "blank s = (py_strip s = [])"

text \<open>\<open>str.lower()\<close> on the code points below 256.\<close>

definition py_lower_char :: "char \<Rightarrow> char" where
  "py_lower_char c =
     (let n = (of_char c :: nat)
      in if (65 \<le> n \<and> n \<le> 90) \<or> (192 \<le> n \<and> n \<le> 222 \<and> n \<noteq> 215)
         then char_of (n + 32) else c)"

definition py_lower :: "string \<Rightarrow> string" where
  "py_lower s = map py_lower_char s"

section \<open>Exceptions, log records and remote calls\<close>

text \<open>
  \<open>HttpError\<close> is the API client's exception; \<open>PyError\<close> is any other subclass of
  \<open>Exception\<close> (\<open>ValueError\<close>, \<open>IndexError\<close>, a transport error).
  \<open>SysExit\<close> is \<open>sys.exit(code)\<close>.
\<close>

datatype exn = HttpError string | PyError string

datatype abort = Raised exn | SysExit int

datatype level = INFO | WARNING | ERROR

text \<open>
  An A1 range of one column: \<open>Cell c r\<close> is \<open>c{r}\<close>, \<open>Span c a None\<close> is the
  open-ended \<open>c{a}:c\<close> and \<open>Span c a (Some b)\<close> is \<open>c{a}:c{b}\<close>.
\<close>

datatype a1range = Cell string int | Span string int "int option"

text \<open>
  The observable events of a run, in order: every remote request that is sent, every sleep
  and every log record (the text of a log record is the fixed part of the source's
  message; the interpolated values are left out).
\<close>

datatype event =
    SheetsMeta
  | SheetsGet a1range
  | SheetsUpdate a1range "string list"
  | DriveList
  | DriveCreateFolder string
  | DriveUpload string string string
  | TtsSynthesize string
  | Sleep real
  | Log level string

section \<open>The gap detector\<close>

text \<open>
  \<open>find_rows_needing_audio\<close>: the loop over \<open>enumerate(zip(audio_column_values,
  text_column_values))\<close>. The result is the list \<open>rows_needing_audio\<close> together with the
  warnings the loop logs.
\<close>

fun gap_loop :: "int \<Rightarrow> (nat \<times> string \<times> string) list \<Rightarrow> int list \<Rightarrow> event list
    \<Rightarrow> int list \<times> event list" where
  "gap_loop start_row [] rows logs = (rows, logs)"
| "gap_loop start_row ((idx, audio_link, text) # rest) rows logs =
     (if blank text
      then gap_loop start_row rest rows
             (logs @ [Log WARNING ''Row has empty or missing text. Skipping.''])
      else if blank audio_link
      then gap_loop start_row rest (rows @ [start_row + int idx]) logs
      else gap_loop start_row rest rows logs)"

definition find_rows_needing_audio :: "string list \<Rightarrow> string list \<Rightarrow> int
    \<Rightarrow> int list \<times> event list" where
  "find_rows_needing_audio audio_column_values text_column_values start_row =
     gap_loop start_row (enumerate 0 (zip audio_column_values text_column_values)) [] []"

text \<open>
  The contract of the gap detector as the specification words it: unequal lengths fail
  with an alignment error, equal lengths give the positions with a source and no marker.
\<close>

datatype contract_error = AlignmentError

definition find_gap_contract :: "string list \<Rightarrow> string list \<Rightarrow> int
    \<Rightarrow> contract_error + int list" where
  "find_gap_contract markers sources start_row =
     (if length markers \<noteq> length sources then Inl AlignmentError
      else Inr (map (\<lambda>i. start_row + int i)
                 (filter (\<lambda>i. \<not> blank (sources ! i) \<and> blank (markers ! i))
                    [0..<length sources])))"

section \<open>Integers as text\<close>

text \<open>
  \<open>py_int\<close> is \<open>int(s)\<close> on a string: surrounding whitespace is stripped, one sign is
  allowed, and the digits may be separated by single underscores; anything else raises
  \<open>ValueError\<close> (\<open>None\<close> here). \<open>format_06\<close> is the format \<open>{n:06}\<close>: decimal
  digits, zero-padded to width 6 with the sign counted in the width.
\<close>

definition is_digit :: "char \<Rightarrow> bool" where
  "is_digit c = (48 \<le> (of_char c :: nat) \<and> (of_char c :: nat) \<le> 57)"

definition digit_value :: "char \<Rightarrow> nat" where
  "digit_value c = of_char c - 48"

fun parse_digits :: "nat \<Rightarrow> string \<Rightarrow> nat option" where
  "parse_digits acc [] = Some acc"
| "parse_digits acc [c] = (if is_digit c then Some (acc * 10 + digit_value c) else None)"
| "parse_digits acc (c # d # rest) =
     (if is_digit c then parse_digits (acc * 10 + digit_value c) (d # rest)
      else if c = CHR ''_'' \<and> is_digit d then parse_digits (acc * 10 + digit_value d) rest
      else None)"

definition parse_nat :: "string \<Rightarrow> nat option" where
  "parse_nat s = (case s of [] \<Rightarrow> None
                  | c # rest \<Rightarrow> if is_digit c then parse_digits (digit_value c) rest else None)"

text \<open>
  \<open>int()\<close> skips the ASCII whitespace 9 to 13 and 32 and the non-ASCII spaces (133 and
  160 below 256) around the number; the separators 28 to 31, which \<open>str.strip()\<close>
  removes, make it raise.
\<close>

definition int_isspace :: "char \<Rightarrow> bool" where
  "int_isspace c = (of_char c \<in> {9, 10, 11, 12, 13, 32, 133, 160 :: nat})"

definition int_strip :: "string \<Rightarrow> string" where
  "int_strip s = rev (dropWhile int_isspace (rev (dropWhile int_isspace s)))"

definition py_int :: "string \<Rightarrow> int option" where
  "py_int s =
     (case int_strip s of
        [] \<Rightarrow> None
      | c # rest \<Rightarrow>
          if c = CHR ''-'' then map_option (\<lambda>n. - int n) (parse_nat rest)
          else if c = CHR ''+'' then map_option int (parse_nat rest)
          else map_option int (parse_nat (c # rest)))"

definition digit_char :: "nat \<Rightarrow> char" where
  "digit_char d = char_of (48 + d)"

function show_nat :: "nat \<Rightarrow> string" where
  "show_nat n = (if n < 10 then [digit_char n] else show_nat (n div 10) @ [digit_char (n mod 10)])"
  by pat_completeness auto
termination
  by (relation "measure id") auto

declare show_nat.simps [simp del]

definition zfill :: "nat \<Rightarrow> string \<Rightarrow> string" where
  "zfill width s = replicate (width - length s) (CHR ''0'') @ s"

definition format_06 :: "int \<Rightarrow> string" where
  "format_06 n = (if n < 0 then CHR ''-'' # zfill 5 (show_nat (nat (- n)))
                  else zfill 6 (show_nat (nat n)))"

section \<open>The world outside the program\<close>

text \<open>
  The remote services are outside the repository. \<open>services\<close> fixes how they answer:
  \<open>fault n\<close> says whether the \<open>n\<close>-th remote request of the run raises and the
  fields after it give the answer of a request that succeeds. The last two fields are
  the interpreter's: \<open>entropy n\<close> feeds the \<open>n\<close>-th random value and \<open>rnd\<close> is the
  rounding of a real to a float, of which nothing is assumed.
\<close>

record services =
  fault :: "nat \<Rightarrow> exn option"
  sheet_title :: "nat \<Rightarrow> string option"
  tts_audio :: "nat \<Rightarrow> string"
  drive_files :: "nat \<Rightarrow> string list"
  drive_folder_id :: "nat \<Rightarrow> string"
  drive_link :: "nat \<Rightarrow> string option"
  entropy :: "nat \<Rightarrow> real"
  rnd :: "real \<Rightarrow> real"

text \<open>
  \<open>random.uniform(0, 1)\<close> is \<open>0 + (1 - 0) * random()\<close> with \<open>random()\<close> in the
  interval from 0 (included) to 1 (excluded): the \<open>n\<close>-th value drawn is the fractional
  part of \<open>entropy n\<close>.
\<close>

definition uniform :: "services \<Rightarrow> nat \<Rightarrow> real" where
  "uniform sv n = frac (entropy sv n)"

text \<open>
  \<open>world\<close> is the state a run changes: the cells of the one tab the run works on
  (\<open>sheet w c r\<close> is the cell of column \<open>c\<close> at row \<open>r\<close>, an unset cell being empty;
  the tab has the rows 1 to \<open>grid_rows w\<close>), the number of remote requests sent, the
  number of random values drawn, and the events so far.
\<close>

record world =
  sheet :: "string \<Rightarrow> int \<Rightarrow> string"
  grid_rows :: int
  calls :: nat
  draws :: nat
  trace :: "event list"

definition log :: "level \<Rightarrow> string \<Rightarrow> world \<Rightarrow> world" where
  "log lvl msg w = w\<lparr>trace := trace w @ [Log lvl msg]\<rparr>"

text \<open>One remote request: it is recorded, counted, and raises when the services say so.\<close>

definition remote :: "services \<Rightarrow> event \<Rightarrow> world \<Rightarrow> (exn + nat) \<times> world" where
  "remote sv ev w =
     (let w1 = w\<lparr>calls := calls w + 1, trace := trace w @ [ev]\<rparr>
      in case fault sv (calls w) of Some e \<Rightarrow> (Inl e, w1) | None \<Rightarrow> (Inr (calls w), w1))"

subsection \<open>The spreadsheet service\<close>

text \<open>
  The spreadsheet service keeps the cells as they were entered. A get answers with the
  rows of the range, inside the grid, up to its last non-empty cell, an empty cell being
  an empty row; an update writes its values to consecutive rows from the first row of the
  range. A range with a row below 1 is refused, and so is an update that does not fit the
  range or the grid.
\<close>

definition range_valid :: "a1range \<Rightarrow> bool" where
  "range_valid rng = (case rng of Cell c r \<Rightarrow> 1 \<le> r
                      | Span c a None \<Rightarrow> 1 \<le> a
                      | Span c a (Some b) \<Rightarrow> 1 \<le> a \<and> a \<le> b)"

definition range_column :: "a1range \<Rightarrow> string" where
  "range_column rng = (case rng of Cell c r \<Rightarrow> c | Span c a b \<Rightarrow> c)"

definition range_first :: "a1range \<Rightarrow> int" where
  "range_first rng = (case rng of Cell c r \<Rightarrow> r | Span c a b \<Rightarrow> a)"

definition range_rows :: "a1range \<Rightarrow> int \<Rightarrow> int list" where
  "range_rows rng n =
     (case rng of
        Cell c r \<Rightarrow> [r..min r n]
      | Span c a None \<Rightarrow> [a..n]
      | Span c a (Some b) \<Rightarrow> [a..min b n])"

definition update_fits :: "a1range \<Rightarrow> string list \<Rightarrow> int \<Rightarrow> bool" where
  "update_fits rng vs n =
     (range_first rng + int (length vs) - 1 \<le> n
      \<and> (case rng of Cell c r \<Rightarrow> length vs \<le> 1
          | Span c a None \<Rightarrow> True
          | Span c a (Some b) \<Rightarrow> a + int (length vs) - 1 \<le> b))"

definition trim_empty :: "string list \<Rightarrow> string list" where
  "trim_empty cells = rev (dropWhile (\<lambda>c. c = []) (rev cells))"

definition api_values :: "string list \<Rightarrow> string list list" where
  "api_values cells = map (\<lambda>c. if c = [] then [] else [c]) (trim_empty cells)"

fun write_cells :: "(int \<Rightarrow> string) \<Rightarrow> int \<Rightarrow> string list \<Rightarrow> int \<Rightarrow> string" where
  "write_cells col r [] = col"
| "write_cells col r (v # vs) = write_cells (col(r := v)) (r + 1) vs"

definition values_get :: "services \<Rightarrow> a1range \<Rightarrow> world \<Rightarrow> (exn + string list list) \<times> world" where
  "values_get sv rng w =
     (case remote sv (SheetsGet rng) w of
        (Inl e, w1) \<Rightarrow> (Inl e, w1)
      | (Inr n, w1) \<Rightarrow>
          if \<not> range_valid rng then (Inl (HttpError ''Unable to parse range''), w1)
          else (Inr (api_values (map (sheet w1 (range_column rng))
                                   (range_rows rng (grid_rows w1)))), w1))"

definition values_update :: "services \<Rightarrow> a1range \<Rightarrow> string list \<Rightarrow> world \<Rightarrow> (exn + unit) \<times> world" where
  "values_update sv rng vs w =
     (case remote sv (SheetsUpdate rng vs) w of
        (Inl e, w1) \<Rightarrow> (Inl e, w1)
      | (Inr n, w1) \<Rightarrow>
          if \<not> range_valid rng then (Inl (HttpError ''Unable to parse range''), w1)
          else if \<not> update_fits rng vs (grid_rows w1)
          then (Inl (HttpError ''Range exceeds grid limits''), w1)
          else (Inr (),
                w1\<lparr>sheet := (sheet w1)(range_column rng :=
                      write_cells (sheet w1 (range_column rng)) (range_first rng) vs)\<rparr>))"

section \<open>The spreadsheet adapter of the audio generator\<close>

text \<open>\<open>values[0][0] if values else ""\<close>, the reading of a one-cell answer.\<close>

definition first_cell :: "string list list \<Rightarrow> exn + string" where
  "first_cell vals =
     (case vals of [] \<Rightarrow> Inr []
      | row # _ \<Rightarrow> (case row of [] \<Rightarrow> Inl (PyError ''IndexError'') | c # _ \<Rightarrow> Inr c))"

text \<open>
  \<open>read_sheet_column\<close>. \<open>force_row_count\<close> is \<open>None\<close> or an integer; it counts as set
  in the two \<open>if force_row_count\<close> tests when it is an integer other than 0.
  \<open>read_range_end\<close> is the end of the range that is requested and \<open>column_values\<close> is
  what the function makes of the answer: the rows are flattened, padded up to the forced
  count, and without a forced count the trailing blank values are popped.
\<close>

definition read_range_end :: "int \<Rightarrow> int option \<Rightarrow> int option" where
  "read_range_end first_row force_row_count =
     (case force_row_count of None \<Rightarrow> None
      | Some n \<Rightarrow> if n \<noteq> 0 then Some (first_row + n - 1) else None)"

definition column_values :: "string list list \<Rightarrow> int option \<Rightarrow> string list" where
  "column_values vals force_row_count =
     (let flat = map (\<lambda>row. case row of [] \<Rightarrow> [] | c # _ \<Rightarrow> c) vals;
          padded = (case force_row_count of None \<Rightarrow> flat
                    | Some n \<Rightarrow> if n \<noteq> 0 then flat @ replicate (nat n - length flat) []
                                else flat)
      in if force_row_count = None then rev (dropWhile blank (rev padded)) else padded)"

definition read_sheet_column :: "services \<Rightarrow> string \<Rightarrow> int \<Rightarrow> int option \<Rightarrow> world
    \<Rightarrow> (exn + string list) \<times> world" where
  "read_sheet_column sv column_letter first_row force_row_count w =
     (case values_get sv (Span column_letter first_row
                            (read_range_end first_row force_row_count)) w of
        (Inl e, w1) \<Rightarrow> (Inl e, w1)
      | (Inr vals, w1) \<Rightarrow> (Inr (column_values vals force_row_count), w1))"

definition ensure_column_header :: "services \<Rightarrow> string \<Rightarrow> string \<Rightarrow> world \<Rightarrow> (exn + unit) \<times> world" where
  "ensure_column_header sv column_letter header_name w =
     values_update sv (Cell column_letter 1) [header_name] w"

section \<open>The retry executor\<close>

text \<open>
  \<open>exponential_backoff_retry\<close>: the loop over \<open>range(max_retries)\<close>. The callable is a
  function of the world that returns a value (\<open>None\<close> is Python's \<open>None\<close>) or raises.
  When the loop ends without a return the function returns \<open>None\<close>.
  \<open>backoff_delay\<close> is the delay of the source for a 0-based attempt and the number of
  the random value drawn: the product and the sum are floats, so each is rounded.
  \<open>time.sleep\<close> raises \<open>ValueError\<close> for a negative delay; raised inside the
  \<open>except\<close> block, it leaves the function.
\<close>

type_synonym 'a action = "world \<Rightarrow> (exn + 'a option) \<times> world"

definition backoff_delay :: "services \<Rightarrow> real \<Rightarrow> real \<Rightarrow> nat \<Rightarrow> nat \<Rightarrow> real" where
  "backoff_delay sv base_delay max_delay attempt draw =
     min (rnd sv (rnd sv (base_delay * 2 ^ attempt) + uniform sv draw)) max_delay"

fun retry_loop :: "services \<Rightarrow> 'a action \<Rightarrow> int \<Rightarrow> real \<Rightarrow> real \<Rightarrow> nat list \<Rightarrow> world
    \<Rightarrow> (exn + 'a option) \<times> world" where
  "retry_loop sv func max_retries base_delay max_delay [] w = (Inr None, w)"
| "retry_loop sv func max_retries base_delay max_delay (attempt # rest) w =
     (case func w of
        (Inr v, w1) \<Rightarrow> (Inr v, w1)
      | (Inl e, w1) \<Rightarrow>
          if int attempt = max_retries - 1 then (Inl e, w1)
          else let delay = backoff_delay sv base_delay max_delay attempt (draws w1);
                   w2 = log WARNING ''Retrying after delay due to error'' (w1\<lparr>draws := draws w1 + 1\<rparr>)
               in if delay < 0 then (Inl (PyError ''ValueError''), w2)
                  else retry_loop sv func max_retries base_delay max_delay rest
                         (w2\<lparr>trace := trace w2 @ [Sleep delay]\<rparr>))"

definition exponential_backoff_retry :: "services \<Rightarrow> 'a action \<Rightarrow> int \<Rightarrow> real \<Rightarrow> real \<Rightarrow> world
    \<Rightarrow> (exn + 'a option) \<times> world" where
  "exponential_backoff_retry sv func max_retries base_delay max_delay w =
     retry_loop sv func max_retries base_delay max_delay [0..<nat max_retries] w"

text \<open>The sleeps among a list of events.\<close>

fun sleeps :: "event list \<Rightarrow> real list" where
  "sleeps [] = []"
| "sleeps (Sleep d # evs) = d # sleeps evs"
| "sleeps (ev # evs) = sleeps evs"

section \<open>The audio generator\<close>

datatype encoding = MP3 | OGG_OPUS | LINEAR16

text \<open>
  The command-line arguments the run uses. The sheet id and the tab name select the one
  tab whose cells \<open>sheet\<close> holds.
\<close>

record args =
  text_column :: string
  start_row :: int
  audio_link_column :: string
  dest_folder_id :: string
  voice_name :: string
  speaking_rate :: real
  audio_encoding :: encoding
  max_rows :: "int option"
  id_column :: string

text \<open>
  \<open>update_sheet_cells_with_retry\<close>; \<open>update_call\<close> is its inner function
  \<open>update\<close>, the request that writes the values to the open-ended range.
\<close>

definition update_call :: "services \<Rightarrow> int \<Rightarrow> string \<Rightarrow> string list \<Rightarrow> unit action" where
  "update_call sv first_row column_letter vals u =
     (case values_update sv (Span column_letter first_row None) vals u of
        (Inl e, u1) \<Rightarrow> (Inl e, u1)
      | (Inr r, u1) \<Rightarrow> (Inr (Some r), u1))"

definition update_sheet_cells_with_retry :: "services \<Rightarrow> int \<Rightarrow> string \<Rightarrow> string list \<Rightarrow> int
    \<Rightarrow> world \<Rightarrow> unit option \<times> world" where
  "update_sheet_cells_with_retry sv first_row column_letter vals max_retries w =
     (case exponential_backoff_retry sv (update_call sv first_row column_letter vals)
             max_retries 1 16 w of
        (Inr r, w1) \<Rightarrow> (r, w1)
      | (Inl (HttpError c), w1) \<Rightarrow>
          (None, log ERROR ''Google Sheets API error while updating cells'' w1)
      | (Inl (PyError c), w1) \<Rightarrow>
          (None, log ERROR ''Unexpected error while updating cells'' w1))"

definition create_or_get_audio_folder :: "services \<Rightarrow> string \<Rightarrow> string \<Rightarrow> world
    \<Rightarrow> (exn + string) \<times> world" where
  "create_or_get_audio_folder sv parent_folder_id sheet_name w =
     (let folder_name = sheet_name @ ''_Audio''
      in case remote sv DriveList w of
           (Inl e, w1) \<Rightarrow> (Inl e, w1)
         | (Inr n, w1) \<Rightarrow>
             (case drive_files sv n of
                folder_id # _ \<Rightarrow> (Inr folder_id, log INFO ''Audio folder created or found'' w1)
              | [] \<Rightarrow>
                 (case remote sv (DriveCreateFolder folder_name) w1 of
                    (Inl e, w2) \<Rightarrow> (Inl e, w2)
                  | (Inr m, w2) \<Rightarrow>
                      (Inr (drive_folder_id sv m), log INFO ''Audio folder created or found'' w2))))"

definition get_mime_type :: "encoding \<Rightarrow> string" where
  "get_mime_type enc = (case enc of MP3 \<Rightarrow> ''audio/mpeg''
                        | OGG_OPUS \<Rightarrow> ''audio/ogg''
                        | LINEAR16 \<Rightarrow> ''audio/wav'')"

definition upload_audio_file :: "services \<Rightarrow> string \<Rightarrow> string \<Rightarrow> string \<Rightarrow> encoding
    \<Rightarrow> string action" where
  "upload_audio_file sv folder_id filename audio_content enc w =
     (let mime_type = get_mime_type enc
      in case remote sv (DriveUpload folder_id filename mime_type) w of
           (Inl e, w1) \<Rightarrow> (Inl e, w1)
         | (Inr n, w1) \<Rightarrow> (Inr (drive_link sv n), log INFO ''Uploaded file to folder'' w1))"

definition synthesize_speech :: "services \<Rightarrow> string \<Rightarrow> string \<Rightarrow> real \<Rightarrow> encoding
    \<Rightarrow> string action" where
  "synthesize_speech sv text voice rate enc w =
     (case remote sv (TtsSynthesize text) w of
        (Inl e, w1) \<Rightarrow> (Inl e, w1)
      | (Inr n, w1) \<Rightarrow> (Inr (Some (tts_audio sv n)), w1))"

definition synthesize_speech_with_retry :: "services \<Rightarrow> string \<Rightarrow> string \<Rightarrow> real \<Rightarrow> encoding
    \<Rightarrow> world \<Rightarrow> string option \<times> world" where
  "synthesize_speech_with_retry sv text voice rate enc w =
     (case exponential_backoff_retry sv (synthesize_speech sv text voice rate enc) 5 1 16 w of
        (Inr r, w1) \<Rightarrow> (r, w1)
      | (Inl (HttpError c), w1) \<Rightarrow>
          (None, log ERROR ''Google TTS API error while synthesizing speech'' w1)
      | (Inl (PyError c), w1) \<Rightarrow>
          (None, log ERROR ''Unexpected error while synthesizing speech'' w1))"

definition upload_audio_file_with_retry :: "services \<Rightarrow> string \<Rightarrow> string \<Rightarrow> string \<Rightarrow> encoding
    \<Rightarrow> world \<Rightarrow> string option \<times> world" where
  "upload_audio_file_with_retry sv folder_id filename audio_content enc w =
     (case exponential_backoff_retry sv
             (upload_audio_file sv folder_id filename audio_content enc) 5 1 16 w of
        (Inr r, w1) \<Rightarrow> (r, w1)
      | (Inl (HttpError c), w1) \<Rightarrow>
          (None, log ERROR ''Google Drive API error while uploading file'' w1)
      | (Inl (PyError c), w1) \<Rightarrow>
          (None, log ERROR ''Unexpected error while uploading file'' w1))"

text \<open>
  \<open>not x\<close> on an optional string or byte string: \<open>None\<close> and the empty value are falsy.
\<close>

definition falsy :: "string option \<Rightarrow> bool" where
  "falsy x = (case x of None \<Rightarrow> True | Some v \<Rightarrow> v = [])"

definition make_filename :: "int \<Rightarrow> string" where
  "make_filename n = ''sentence_'' @ format_06 n @ ''.mp3''"

definition hyperlink_formula :: "string \<Rightarrow> string \<Rightarrow> string" where
  "hyperlink_formula link filename =
     ''=HYPERLINK('' @ [CHR 0x22] @ link @ [CHR 0x22] @ '', '' @ [CHR 0x22] @ filename
       @ [CHR 0x22] @ '')''"

text \<open>
  \<open>process_row\<close>. The two wrappers with retry never raise, so the \<open>except\<close> clauses of
  \<open>process_row\<close> around them have no branch here. The fetch of the sentence id and
  \<open>int(sentence_id)\<close> are outside every \<open>try\<close>: their exceptions leave the function.
\<close>

definition process_row :: "services \<Rightarrow> args \<Rightarrow> int \<Rightarrow> string \<Rightarrow> string \<Rightarrow> world
    \<Rightarrow> (exn + unit) \<times> world" where
  "process_row sv a row_num text audio_folder_id w =
     (if blank text then (Inr (), log WARNING ''Row text is empty, skipping.'' w)
      else
        case synthesize_speech_with_retry sv text (voice_name a) (speaking_rate a)
               (audio_encoding a) (log INFO ''Synthesizing audio for row'' w) of
          (audio_content, w1) \<Rightarrow>
            if falsy audio_content then (Inr (), w1)
            else
              (case values_get sv (Span (id_column a) row_num (Some row_num)) w1 of
                 (Inl e, w2) \<Rightarrow> (Inl e, w2)
               | (Inr vals, w2) \<Rightarrow>
                   (case first_cell vals of
                      Inl e \<Rightarrow> (Inl e, w2)
                    | Inr sentence_id \<Rightarrow>
                        if blank sentence_id
                        then (Inr (), log ERROR ''Row is missing a sentence ID. Skipping.'' w2)
                        else
                          (case py_int sentence_id of
                             None \<Rightarrow> (Inl (PyError ''ValueError''), w2)
                           | Some n \<Rightarrow>
                               let filename = make_filename n
                               in (case upload_audio_file_with_retry sv audio_folder_id filename
                                          (case audio_content of None \<Rightarrow> [] | Some b \<Rightarrow> b)
                                          (audio_encoding a) w2 of
                                     (link, w3) \<Rightarrow>
                                       if falsy link then (Inr (), w3)
                                       else
                                         (case update_sheet_cells_with_retry sv row_num
                                                 (audio_link_column a)
                                                 [hyperlink_formula
                                                    (case link of None \<Rightarrow> [] | Some l \<Rightarrow> l)
                                                    filename]
                                                 5 (log INFO ''Uploaded audio for row'' w3) of
                                            (r, w4) \<Rightarrow> (Inr (), w4)))))))"

text \<open>
  \<open>validate_sheet_structure\<close>: the three header cells are fetched, then read, then
  tested in the order of the source; each failed test ends the process with status 1.
\<close>

definition header_failure :: "string \<Rightarrow> string \<Rightarrow> string \<Rightarrow> string option" where
  "header_failure text_header audio_link_header id_header =
     (if blank text_header then Some ''The text column is missing a header''
      else if blank audio_link_header then Some ''The audio link column is missing a header''
      else if blank id_header then Some ''The ID column is missing a header''
      else if py_lower text_header \<noteq> ''translation''
        then Some ''The text column header must be translation''
      else if py_lower audio_link_header \<noteq> ''audio_file''
        then Some ''The audio link column header must be audio_file''
      else if py_lower id_header \<noteq> ''sentence_id''
        then Some ''The ID column header must be sentence_id''
      else None)"

definition validate_sheet_structure :: "services \<Rightarrow> string \<Rightarrow> string \<Rightarrow> string \<Rightarrow> world
    \<Rightarrow> (abort + unit) \<times> world" where
  "validate_sheet_structure sv text_col audio_col id_col w =
     (case values_get sv (Cell text_col 1) w of
        (Inl e, w1) \<Rightarrow> (Inl (Raised e), w1)
      | (Inr text_vals, w1) \<Rightarrow>
     (case values_get sv (Cell audio_col 1) w1 of
        (Inl e, w2) \<Rightarrow> (Inl (Raised e), w2)
      | (Inr audio_vals, w2) \<Rightarrow>
     (case values_get sv (Cell id_col 1) w2 of
        (Inl e, w3) \<Rightarrow> (Inl (Raised e), w3)
      | (Inr id_vals, w3) \<Rightarrow>
     (case first_cell text_vals of Inl e \<Rightarrow> (Inl (Raised e), w3) | Inr text_header \<Rightarrow>
     (case first_cell audio_vals of Inl e \<Rightarrow> (Inl (Raised e), w3) | Inr audio_link_header \<Rightarrow>
     (case first_cell id_vals of Inl e \<Rightarrow> (Inl (Raised e), w3) | Inr id_header \<Rightarrow>
     (case header_failure text_header audio_link_header id_header of
        Some msg \<Rightarrow> (Inl (SysExit 1), log ERROR msg w3)
      | None \<Rightarrow> (Inr (), log INFO ''Sheet structure validated successfully.'' w3))))))))"

definition get_spreadsheet_title :: "services \<Rightarrow> world \<Rightarrow> (exn + string) \<times> world" where
  "get_spreadsheet_title sv w =
     (case remote sv SheetsMeta w of
        (Inl e, w1) \<Rightarrow> (Inl e, w1)
      | (Inr n, w1) \<Rightarrow>
          (Inr (case sheet_title sv n of None \<Rightarrow> ''Untitled_Sheet'' | Some t \<Rightarrow> t), w1))"

text \<open>\<open>test_google_services\<close>: three requests inside one \<open>try\<close> that logs any exception.\<close>

definition test_google_services :: "services \<Rightarrow> world \<Rightarrow> world" where
  "test_google_services sv w =
     (let failed = log ERROR ''Error during Google services test''
      in case remote sv SheetsMeta w of
           (Inl e, w1) \<Rightarrow> failed w1
         | (Inr n, w1) \<Rightarrow>
        (case remote sv DriveList (log INFO ''Google Sheets API is working correctly.'' w1) of
           (Inl e, w2) \<Rightarrow> failed w2
         | (Inr n, w2) \<Rightarrow>
        (case remote sv (TtsSynthesize ''Test audio'')
                (log INFO ''Google Drive API is working correctly.'' w2) of
           (Inl e, w3) \<Rightarrow> failed w3
         | (Inr n, w3) \<Rightarrow> log INFO ''Google Text-to-Speech API is working correctly.'' w3)))"

text \<open>\<open>xs[idx]\<close> and \<open>xs[:n]\<close> with Python's negative indices.\<close>

definition py_index :: "'a list \<Rightarrow> int \<Rightarrow> exn + 'a" where
  "py_index xs i =
     (if 0 \<le> i \<and> i < int (length xs) then Inr (xs ! nat i)
      else if i < 0 \<and> - i \<le> int (length xs) then Inr (xs ! nat (int (length xs) + i))
      else Inl (PyError ''IndexError''))"

definition py_prefix :: "'a list \<Rightarrow> int \<Rightarrow> 'a list" where
  "py_prefix xs n = (if 0 \<le> n then take (nat n) xs else take (length xs - nat (- n)) xs)"

text \<open>The loop \<open>for row_num in rows_to_process\<close> of \<open>main\<close>.\<close>

fun process_rows :: "services \<Rightarrow> args \<Rightarrow> string list \<Rightarrow> string \<Rightarrow> int list \<Rightarrow> world
    \<Rightarrow> (exn + unit) \<times> world" where
  "process_rows sv a text_col_values audio_folder_id [] w = (Inr (), w)"
| "process_rows sv a text_col_values audio_folder_id (row_num # rest) w =
     (case py_index text_col_values (row_num - start_row a) of
        Inl e \<Rightarrow> (Inl e, w)
      | Inr text \<Rightarrow>
          (case process_row sv a row_num text audio_folder_id w of
             (Inl e, w1) \<Rightarrow> (Inl e, w1)
           | (Inr u, w1) \<Rightarrow> process_rows sv a text_col_values audio_folder_id rest w1))"

text \<open>
  \<open>main\<close>, from \<open>validate_input_parameters\<close> on (the parsing of the arguments gives
  \<open>args\<close>, and the sign-in of \<open>get_google_services\<close> touches none of the state here).
  The result is \<open>Inr ()\<close> when \<open>main\<close> returns, \<open>Inl (SysExit c)\<close> for \<open>sys.exit(c)\<close>
  and \<open>Inl (Raised e)\<close> when an exception leaves \<open>main\<close>.
\<close>

definition main :: "services \<Rightarrow> args \<Rightarrow> world \<Rightarrow> (abort + unit) \<times> world" where
  "main sv a w =
     (if speaking_rate a \<le> 0
      then (Inl (SysExit 1), log ERROR ''The --speaking_rate parameter must be greater than 0.'' w)
      else
     (case get_spreadsheet_title sv
             (test_google_services sv (log INFO ''Testing Google services...'' w)) of
        (Inl e, w1) \<Rightarrow> (Inl (Raised e), w1)
      | (Inr spreadsheet_title, w1) \<Rightarrow>
     (case ensure_column_header sv (audio_link_column a) ''audio_file'' w1 of
        (Inl e, w2) \<Rightarrow> (Inl (Raised e), w2)
      | (Inr u, w2) \<Rightarrow>
     (case read_sheet_column sv (text_column a) (start_row a) None w2 of
        (Inl e, w3) \<Rightarrow> (Inl (Raised e), w3)
      | (Inr text_col_values, w3) \<Rightarrow>
     (case read_sheet_column sv (audio_link_column a) (start_row a)
             (Some (int (length text_col_values))) w3 of
        (Inl e, w4) \<Rightarrow> (Inl (Raised e), w4)
      | (Inr audio_col_values, w4) \<Rightarrow>
     (if length audio_col_values \<noteq> length text_col_values
      then (Inl (SysExit 1), log ERROR ''Audio column and text column must match.'' w4)
      else
     (case find_rows_needing_audio audio_col_values text_col_values (start_row a) of
        (rows_found, warnings) \<Rightarrow>
     (let w5 = w4\<lparr>trace := trace w4 @ warnings\<rparr>
      in if rows_found = []
         then (Inl (SysExit 0),
               log INFO ''No rows found that require audio generation. Exiting.'' w5)
         else
     (case create_or_get_audio_folder sv (dest_folder_id a) spreadsheet_title
             (log INFO ''Found rows needing audio.'' w5) of
        (Inl e, w6) \<Rightarrow> (Inl (Raised e), w6)
      | (Inr audio_folder_id, w6) \<Rightarrow>
     (let w7 = log INFO ''Audio files will be uploaded to folder'' w6;
          rows_to_process = (case max_rows a of None \<Rightarrow> rows_found
                             | Some n \<Rightarrow> py_prefix rows_found n);
          w8 = (case max_rows a of None \<Rightarrow> w7
                | Some n \<Rightarrow> log INFO ''Limiting processing to the first rows.'' w7)
      in case validate_sheet_structure sv (text_column a) (audio_link_column a) (id_column a) w8 of
           (Inl ab, w9) \<Rightarrow> (Inl ab, w9)
         | (Inr u, w9) \<Rightarrow>
        (case process_rows sv a text_col_values audio_folder_id rows_to_process w9 of
           (Inl e, w10) \<Rightarrow> (Inl (Raised e), w10)
         | (Inr u, w10) \<Rightarrow> (Inr (), log INFO ''Audio generation complete.'' w10))))))))))))"

section \<open>The gap of a sheet\<close>

text \<open>
  What the two reads of \<open>main\<close> and the gap detector give on a sheet when the requests
  succeed: \<open>read_column\<close> is the result of \<open>read_sheet_column\<close>, \<open>sheet_gap\<close> the
  rows found by \<open>find_rows_needing_audio\<close> on the text column and the audio column read
  with the forced length. \<open>with_header\<close> is the sheet after \<open>ensure_column_header\<close>.
\<close>

definition read_column :: "(string \<Rightarrow> int \<Rightarrow> string) \<Rightarrow> int \<Rightarrow> string \<Rightarrow> int \<Rightarrow> int option
    \<Rightarrow> string list" where
  "read_column sh n column_letter first_row force_row_count =
     column_values
       (api_values (map (sh column_letter)
          (range_rows (Span column_letter first_row (read_range_end first_row force_row_count)) n)))
       force_row_count"

definition sheet_gap :: "(string \<Rightarrow> int \<Rightarrow> string) \<Rightarrow> int \<Rightarrow> args \<Rightarrow> int list" where
  "sheet_gap sh n a =
     (let text_col_values = read_column sh n (text_column a) (start_row a) None;
          audio_col_values = read_column sh n (audio_link_column a) (start_row a)
                               (Some (int (length text_col_values)))
      in fst (find_rows_needing_audio audio_col_values text_col_values (start_row a)))"

definition with_header :: "(string \<Rightarrow> int \<Rightarrow> string) \<Rightarrow> args \<Rightarrow> string \<Rightarrow> int \<Rightarrow> string" where
  "with_header sh a =
     sh(audio_link_column a := (sh (audio_link_column a))(1 := ''audio_file''))"

text \<open>
  The events that only the processing of a row produces: the first log record of
  \<open>process_row\<close> (one of two), an upload, and the write of a marker cell.
  \<open>is_header_check\<close> holds of the fetches of \<open>validate_sheet_structure\<close> and
  \<open>is_column_read\<close> of the open-ended read of a column.
\<close>

fun is_row_event :: "event \<Rightarrow> bool" where
  "is_row_event (DriveUpload f n m) = True"
| "is_row_event (SheetsUpdate (Span c r e) vs) = True"
| "is_row_event (Log INFO msg) = (msg = ''Synthesizing audio for row'')"
| "is_row_event (Log WARNING msg) = (msg = ''Row text is empty, skipping.'')"
| "is_row_event ev = False"

fun is_header_check :: "event \<Rightarrow> bool" where
  "is_header_check (SheetsGet (Cell c r)) = True"
| "is_header_check ev = False"

fun is_column_read :: "event \<Rightarrow> bool" where
  "is_column_read (SheetsGet (Span c r None)) = True"
| "is_column_read ev = False"

section \<open>The poller of the translation sheet generator\<close>

text \<open>
  \<open>wait_for_translations\<close>: the loop \<open>while True\<close>. \<open>poll n\<close> is what the \<open>n\<close>-th read
  of the formula column gives: an exception, or the rows of the answer. The loop may
  run forever; then the function has no result (\<open>None\<close>). A result is the value returned
  or the exception raised, with the seconds slept before it, one entry per sleep.
\<close>

definition resolved :: "int \<Rightarrow> string list list \<Rightarrow> bool" where
  "resolved num_rows vals =
     (int (length vals) = num_rows
      \<and> list_all (\<lambda>row. case row of [] \<Rightarrow> False | c # _ \<Rightarrow> take 1 c \<noteq> ''='') vals)"

partial_function (option) wait_for_translations ::
    "(nat \<Rightarrow> exn + string list list) \<Rightarrow> int \<Rightarrow> nat \<Rightarrow> nat list
       \<Rightarrow> ((exn + string list list) \<times> nat list) option" where
  "wait_for_translations poll num_rows n slept =
     (case poll n of
        Inl e \<Rightarrow> Some (Inl e, slept)
      | Inr vals \<Rightarrow>
          if resolved num_rows vals then Some (Inr vals, slept)
          else wait_for_translations poll num_rows (Suc n) (slept @ [15]))"

section \<open>Notions used to state the properties of the retry executor\<close>

text \<open>
  \<open>after_warning\<close> is the world after a failed attempt that is not the last one: the
  jitter is drawn and the warning logged; \<open>after_failure\<close> is the world after the sleep
  that follows. A callable is \<open>well_behaved\<close> on the worlds that satisfy \<open>I\<close> when
  each invocation in such a world is one remote request whose result is \<open>outcome\<close> of
  the number of that request, a failed invocation leads to such a world again, and the
  callable itself neither sleeps nor draws random values; \<open>I\<close> must not depend on the
  random values drawn or on the events. \<open>loop_end\<close> says how a run of \<open>m\<close> invocations
  out of \<open>budget\<close> ends, \<open>c\<close> being the number of the first request and \<open>d\<close> the
  delay computed after the last invocation: with the result of that invocation, which
  is a failure only when the budget is used up, or with the \<open>ValueError\<close> of a negative
  delay after a failure.
\<close>

definition after_warning :: "world \<Rightarrow> world" where
  "after_warning u = log WARNING ''Retrying after delay due to error'' (u\<lparr>draws := draws u + 1\<rparr>)"

definition after_failure :: "services \<Rightarrow> real \<Rightarrow> real \<Rightarrow> nat \<Rightarrow> world \<Rightarrow> world" where
  "after_failure sv bd md attempt u =
     (after_warning u)\<lparr>trace := trace (after_warning u)
                                @ [Sleep (backoff_delay sv bd md attempt (draws u))]\<rparr>"

definition well_behaved :: "(world \<Rightarrow> bool) \<Rightarrow> 'a action \<Rightarrow> (nat \<Rightarrow> exn + 'a option) \<Rightarrow> bool" where
  "well_behaved I func outcome =
     ((\<forall>u. I u \<longrightarrow>
            fst (func u) = outcome (calls u)
          \<and> calls (snd (func u)) = Suc (calls u)
          \<and> draws (snd (func u)) = draws u
          \<and> sleeps (trace (snd (func u))) = sleeps (trace u)
          \<and> (isl (fst (func u)) \<longrightarrow> I (snd (func u))))
      \<and> (\<forall>u d t. I u \<longrightarrow> I (u\<lparr>draws := d, trace := t\<rparr>)))"

definition loop_end :: "(nat \<Rightarrow> exn + 'a option) \<Rightarrow> nat \<Rightarrow> nat \<Rightarrow> nat \<Rightarrow> real
    \<Rightarrow> exn + 'a option \<Rightarrow> bool" where
  "loop_end outcome c m budget d r =
     ((r = outcome (c + m - 1) \<and> (isl r \<longrightarrow> m = budget))
      \<or> (isl (outcome (c + m - 1)) \<and> m < budget \<and> d < 0
          \<and> r = Inl (PyError ''ValueError'')))"



section \<open>Notions used to state the properties of the poller\<close>

text \<open>
  \<open>unresolved_at poll num_rows j\<close>: the \<open>j\<close>-th read succeeds and does not satisfy the
  success condition. \<open>polls_unresolved poll num_rows n k\<close>: this holds of the \<open>k\<close> reads
  from the \<open>n\<close>-th on. \<open>poll_result\<close>: a result of the loop started at the \<open>n\<close>-th
  read is the answer of a later read, reached after one sleep of 15 seconds per
  unresolved read before it. \<open>translating\<close> is an example of a sheet whose formulas
  resolve at the third read.
\<close>

definition unresolved_at :: "(nat \<Rightarrow> exn + string list list) \<Rightarrow> int \<Rightarrow> nat \<Rightarrow> bool" where
  "unresolved_at poll num_rows j =
     (case poll j of Inl e \<Rightarrow> False | Inr v \<Rightarrow> \<not> resolved num_rows v)"

definition polls_unresolved :: "(nat \<Rightarrow> exn + string list list) \<Rightarrow> int \<Rightarrow> nat \<Rightarrow> nat \<Rightarrow> bool" where
  "polls_unresolved poll num_rows n k = list_all (\<lambda>j. unresolved_at poll num_rows (n + j)) [0..<k]"

definition translating :: "nat \<Rightarrow> exn + string list list" where
  "translating j = (if j = 0 then Inr [[''=GOOGLETRANSLATE(A2)''], [''hola'']]
                    else if j = 1 then Inr [[''adios'']]
                    else Inr [[''adios''], [''hola'']])"

definition poll_result ::
    "(nat \<Rightarrow> exn + string list list) \<Rightarrow> int \<Rightarrow> nat \<Rightarrow> nat list
       \<Rightarrow> (exn + string list list) \<times> nat list \<Rightarrow> bool" where
  "poll_result poll num_rows n slept y =
     (\<exists>k. polls_unresolved poll num_rows n k \<and> snd y = slept @ replicate k 15
        \<and> fst y = poll (n + k)
        \<and> (case poll (n + k) of Inl e \<Rightarrow> True | Inr v \<Rightarrow> resolved num_rows v))"





section \<open>Notions used to state what a step leaves unchanged\<close>

text \<open>
  \<open>same_sheet w w'\<close>: the cells and the grid of the sheet are the same in both worlds.
  \<open>extends P w w'\<close>: the events of \<open>w'\<close> are those of \<open>w\<close> followed by events of
  which none satisfies \<open>P\<close>. \<open>is_sheet_write\<close> holds of the update requests.
\<close>

definition same_sheet :: "world \<Rightarrow> world \<Rightarrow> bool" where
  "same_sheet w w' = (sheet w' = sheet w \<and> grid_rows w' = grid_rows w)"

definition extends :: "(event \<Rightarrow> bool) \<Rightarrow> world \<Rightarrow> world \<Rightarrow> bool" where
  "extends P w w' = (\<exists>evs. trace w' = trace w @ evs \<and> filter P evs = [])"

fun is_sheet_write :: "event \<Rightarrow> bool" where
  "is_sheet_write (SheetsUpdate rng vs) = True"
| "is_sheet_write ev = False"


section \<open>Example services, sheet and arguments\<close>

text \<open>
  \<open>down_from k\<close> are services that answer the first \<open>k\<close> requests of a run and fail
  every later one. \<open>lesson\<close> is a sheet of two sentences below its header row, the
  first with an id that is not a number; \<open>classroom\<close> is a world with this sheet and
  \<open>opus_args\<close> are arguments that ask for Ogg Opus audio.
\<close>

definition down_from :: "nat \<Rightarrow> services" where
  "down_from k = \<lparr>fault = (\<lambda>n. if n < k then None else Some (HttpError ''503'')),
     sheet_title = (\<lambda>n. Some ''Deck''), tts_audio = (\<lambda>n. ''RIFF''), drive_files = (\<lambda>n. [''F'']),
     drive_folder_id = (\<lambda>n. ''F''), drive_link = (\<lambda>n. Some ''http://l''),
     entropy = (\<lambda>n. 1 / 2), rnd = (\<lambda>x. x)\<rparr>"

definition lesson :: "string \<Rightarrow> int \<Rightarrow> string" where
  "lesson c r =
     (if c = ''A'' then (if r = 1 then ''sentence_id'' else if r = 2 then ''abc''
                         else if r = 3 then ''7'' else [])
      else if c = ''C'' then (if r = 1 then ''translation'' else if r = 2 then ''hola''
                              else if r = 3 then ''adios'' else [])
      else if c = ''D'' then (if r = 1 then ''audio_file'' else [])
      else [])"

definition classroom :: world where
  "classroom = \<lparr>sheet = lesson, grid_rows = 4, calls = 0, draws = 0, trace = []\<rparr>"

definition opus_args :: args where
  "opus_args = \<lparr>text_column = ''C'', start_row = 2, audio_link_column = ''D'',
     dest_folder_id = ''root'', voice_name = ''es-ES-Standard-A'', speaking_rate = 1,
     audio_encoding = OGG_OPUS, max_rows = None, id_column = ''A''\<rparr>"


text \<open>
  \<open>stray\<close> is a sheet whose only cell is a marker without a text, and \<open>attic\<close> a
  world with this sheet.
\<close>

definition stray :: "string \<Rightarrow> int \<Rightarrow> string" where
  "stray c r = (if c = ''D'' \<and> r = 2 then ''x'' else [])"

definition attic :: world where
  "attic = \<lparr>sheet = stray, grid_rows = 4, calls = 0, draws = 0, trace = []\<rparr>"

section \<open>Facts about strings\<close>

lemma blank_iff: "blank s \<longleftrightarrow> (\<forall>c \<in> set s. py_isspace c)"
proof -
  have "blank s \<longleftrightarrow> dropWhile py_isspace (rev (dropWhile py_isspace s)) = []"
    by (simp add: blank_def py_strip_def)
  also have "\<dots> \<longleftrightarrow> (\<forall>c \<in> set (dropWhile py_isspace s). py_isspace c)"
    by (simp add: dropWhile_eq_Nil_conv)
  also have "\<dots> \<longleftrightarrow> (\<forall>c \<in> set s. py_isspace c)"
  proof
    assume h: "\<forall>c \<in> set (dropWhile py_isspace s). py_isspace c"
    have "dropWhile py_isspace s = []"
    proof (cases "dropWhile py_isspace s")
      case Nil
      then show ?thesis .
    next
      case (Cons x xs)
      then have "\<not> py_isspace x" using hd_dropWhile [of py_isspace s] by simp
      moreover have "py_isspace x" using h Cons by simp
      ultimately show ?thesis by simp
    qed
    then show "\<forall>c \<in> set s. py_isspace c" by (simp add: dropWhile_eq_Nil_conv)
  next
    assume "\<forall>c \<in> set s. py_isspace c"
    then show "\<forall>c \<in> set (dropWhile py_isspace s). py_isspace c"
      by (blast dest: set_dropWhileD)
  qed
  finally show ?thesis .
qed

lemma blank_Nil [simp]: "blank []"
  by (simp add: blank_iff)

lemma blank_Cons [simp]: "blank (c # s) \<longleftrightarrow> py_isspace c \<and> blank s"
  by (simp add: blank_iff)

section \<open>Facts about the gap detector\<close>

lemma gap_loop_rows:
  "fst (gap_loop sr ps rows logs) =
     rows @ map (\<lambda>p. sr + int (fst p))
              (filter (\<lambda>p. \<not> blank (snd (snd p)) \<and> blank (fst (snd p))) ps)"
  by (induction ps arbitrary: rows logs) auto

lemma filter_enumerate_zip:
  "length ms = length ss \<Longrightarrow>
   map fst (filter (\<lambda>p. \<not> blank (snd (snd p)) \<and> blank (fst (snd p))) (enumerate 0 (zip ms ss))) =
   filter (\<lambda>i. \<not> blank (ss ! i) \<and> blank (ms ! i)) [0..<length ss]"
proof -
  assume len: "length ms = length ss"
  have e: "enumerate 0 (zip ms ss) = map (\<lambda>i. (i, ms ! i, ss ! i)) [0..<length ss]"
    by (rule nth_equalityI) (simp_all add: len nth_enumerate_eq)
  show ?thesis
    unfolding e by (simp add: filter_map comp_def)
qed

lemma find_rows_needing_audio_rows:
  "length ms = length ss \<Longrightarrow>
   fst (find_rows_needing_audio ms ss sr) =
     map (\<lambda>i. sr + int i)
       (filter (\<lambda>i. \<not> blank (ss ! i) \<and> blank (ms ! i)) [0..<length ss])"
proof -
  assume len: "length ms = length ss"
  have "fst (find_rows_needing_audio ms ss sr) =
        map (\<lambda>i. sr + int i)
          (map fst (filter (\<lambda>p. \<not> blank (snd (snd p)) \<and> blank (fst (snd p)))
             (enumerate 0 (zip ms ss))))"
    by (simp add: find_rows_needing_audio_def gap_loop_rows comp_def)
  then show ?thesis
    by (simp only: filter_enumerate_zip [OF len])
qed

lemma find_rows_needing_audio_take:
  "fst (find_rows_needing_audio ms ss sr) =
   fst (find_rows_needing_audio (take (min (length ms) (length ss)) ms)
          (take (min (length ms) (length ss)) ss) sr)"
proof -
  have "zip ms ss = zip (take (min (length ms) (length ss)) ms)
                        (take (min (length ms) (length ss)) ss)"
    by (simp add: take_zip [symmetric])
  then show ?thesis
    by (simp add: find_rows_needing_audio_def)
qed

text \<open>
  C1. For marker and source sequences of equal length, the gap detector returns exactly
  the rows \<open>start_row + i\<close>, in ascending order, of the positions \<open>i\<close> whose source is
  not blank and whose marker is blank; a position with a blank source is left out even
  when its marker is blank. For sources \<open>[a, empty, c]\<close> and markers
  \<open>[empty, empty, x]\<close> the result is the single row \<open>start_row\<close>.
\<close>

theorem find_rows_needing_audio_exact:
  "length markers = length sources \<Longrightarrow>
     fst (find_rows_needing_audio markers sources sr) =
       map (\<lambda>i. sr + int i)
         (filter (\<lambda>i. \<not> blank (sources ! i) \<and> blank (markers ! i)) [0..<length sources])
     \<and> sorted (fst (find_rows_needing_audio markers sources sr))
     \<and> distinct (fst (find_rows_needing_audio markers sources sr))
     \<and> fst (find_rows_needing_audio ['''', '''', ''x''] [''a'', '''', ''c''] sr)
         = [sr]"
proof -
  assume len: "length markers = length sources"
  let ?is = "filter (\<lambda>i. \<not> blank (sources ! i) \<and> blank (markers ! i)) [0..<length sources]"
  have rows: "fst (find_rows_needing_audio markers sources sr) =
              map (\<lambda>i. sr + int i) ?is"
    by (rule find_rows_needing_audio_rows [OF len])
  have s: "sorted ?is" by (rule sorted_wrt_filter) simp
  have d: "distinct ?is" by simp
  have "sorted (map (\<lambda>i. sr + int i) ?is)"
    using s by (simp add: sorted_wrt_map sorted_wrt_mono_rel [of _ "(\<le>)"])
  moreover have "distinct (map (\<lambda>i. sr + int i) ?is)"
    using d by (simp add: distinct_map inj_on_def)
  moreover have "fst (find_rows_needing_audio ['''', '''', ''x''] [''a'', '''', ''c''] sr)
         = [sr]"
    by (simp add: find_rows_needing_audio_def enumerate_eq_zip py_isspace_def upt_rec)
  ultimately show ?thesis using rows by simp
qed

theorem find_rows_needing_audio_exact_witness:
  "length ['''', '' '', ''x'', ''''] = length [''a'', ''b'', ''c'', '' '']
   \<and> fst (find_rows_needing_audio ['''', '' '', ''x'', ''''] [''a'', ''b'', ''c'', '' ''] 2)
       = [2, 3]"
  using find_rows_needing_audio_exact [of "['''', '' '', ''x'', '''']" "[''a'', ''b'', ''c'', '' '']" 2]
  by (simp add: py_isspace_def upt_rec)

section \<open>The poller: when it returns\<close>

lemma polls_unresolved_0 [simp]: "polls_unresolved poll num_rows n 0"
  by (simp add: polls_unresolved_def)

lemma polls_unresolved_Suc_left:
  "polls_unresolved poll num_rows n (Suc k) \<longleftrightarrow>
     unresolved_at poll num_rows n \<and> polls_unresolved poll num_rows (Suc n) k"
proof -
  have e: "[0..<Suc k] = 0 # map Suc [0..<k]"
    by (simp add: upt_rec [of 0 "Suc k"] map_Suc_upt del: upt_Suc)
  show ?thesis
    unfolding polls_unresolved_def e by (simp add: list.pred_map comp_def)
qed

lemma resolved_iff:
  "resolved num_rows vals \<longleftrightarrow>
     int (length vals) = num_rows
     \<and> (\<forall>row \<in> set vals. row \<noteq> [] \<and> take 1 (hd row) \<noteq> ''='')"
proof -
  have "\<And>row :: string list. (case row of [] \<Rightarrow> False | c # x \<Rightarrow> take 1 c \<noteq> ''='')
           = (row \<noteq> [] \<and> take 1 (hd row) \<noteq> ''='')"
    by (simp split: list.splits)
  then show ?thesis by (simp add: resolved_def list_all_iff)
qed

lemma poll_result_now:
  "(case poll n of Inl e \<Rightarrow> True | Inr v \<Rightarrow> resolved num_rows v) \<Longrightarrow>
   poll_result poll num_rows n slept (poll n, slept)"
  unfolding poll_result_def by (intro exI [of _ 0]) simp

lemma poll_result_later:
  assumes u: "unresolved_at poll num_rows n"
    and r: "poll_result poll num_rows (Suc n) (slept @ [15]) y"
  shows "poll_result poll num_rows n slept y"
proof -
  from r obtain k where k1: "polls_unresolved poll num_rows (Suc n) k"
    and k2: "snd y = (slept @ [15]) @ replicate k 15" and k3: "fst y = poll (Suc n + k)"
    and k4: "case poll (Suc n + k) of Inl e \<Rightarrow> True | Inr v \<Rightarrow> resolved num_rows v"
    unfolding poll_result_def by blast
  have "polls_unresolved poll num_rows n (Suc k)"
    using u k1 by (simp add: polls_unresolved_Suc_left)
  moreover have "snd y = slept @ replicate (Suc k) 15"
    using k2 by (simp add: replicate_append_same)
  moreover have "fst y = poll (n + Suc k)" using k3 by simp
  moreover have "case poll (n + Suc k) of Inl e \<Rightarrow> True | Inr v \<Rightarrow> resolved num_rows v"
    using k4 by simp
  ultimately show ?thesis unfolding poll_result_def by blast
qed

lemma wait_sound:
  assumes "wait_for_translations poll num_rows n slept = Some y"
  shows "poll_result poll num_rows n slept y"
proof (rule wait_for_translations.raw_induct [where P = poll_result, OF _ assms])
  fix wait :: "(nat \<Rightarrow> exn + string list list) \<Rightarrow> int \<Rightarrow> nat \<Rightarrow> nat list
       \<Rightarrow> ((exn + string list list) \<times> nat list) option"
  fix poll num_rows n slept y
  assume IH: "\<And>poll num_rows n slept y. wait poll num_rows n slept = Some y
                \<Longrightarrow> poll_result poll num_rows n slept y"
    and eq: "(case poll n of Inl e \<Rightarrow> Some (Inl e, slept)
      | Inr vals \<Rightarrow>
          if resolved num_rows vals then Some (Inr vals, slept)
          else wait poll num_rows (Suc n) (slept @ [15])) = Some y"
  show "poll_result poll num_rows n slept y"
  proof (cases "poll n")
    case (Inl e)
    with eq have y: "y = (poll n, slept)" by simp
    have "poll_result poll num_rows n slept (poll n, slept)"
      by (rule poll_result_now) (simp add: Inl)
    then show ?thesis unfolding y .
  next
    case (Inr v)
    show ?thesis
    proof (cases "resolved num_rows v")
      case True
      with eq Inr have y: "y = (poll n, slept)" by simp
      have "poll_result poll num_rows n slept (poll n, slept)"
        by (rule poll_result_now) (simp add: Inr True)
      then show ?thesis unfolding y .
    next
      case False
      with eq Inr have "wait poll num_rows (Suc n) (slept @ [15]) = Some y" by simp
      then have r: "poll_result poll num_rows (Suc n) (slept @ [15]) y" by (rule IH)
      have u: "unresolved_at poll num_rows n" using Inr False by (simp add: unresolved_at_def)
      show ?thesis by (rule poll_result_later [OF u r])
    qed
  qed
qed

lemma wait_complete:
  "polls_unresolved poll num_rows n k \<Longrightarrow>
   (case poll (n + k) of Inl e \<Rightarrow> True | Inr v \<Rightarrow> resolved num_rows v) \<Longrightarrow>
   wait_for_translations poll num_rows n slept = Some (poll (n + k), slept @ replicate k 15)"
proof (induction k arbitrary: n slept)
  case 0
  then show ?case
    by (subst wait_for_translations.simps) (simp split: sum.splits)
next
  case (Suc k)
  from Suc.prems(1) have u: "unresolved_at poll num_rows n"
    and rest: "polls_unresolved poll num_rows (Suc n) k"
    by (simp_all add: polls_unresolved_Suc_left)
  from Suc.prems(2) have fin: "case poll (Suc n + k) of Inl e \<Rightarrow> True | Inr v \<Rightarrow> resolved num_rows v"
    by simp
  from u obtain v where v: "poll n = Inr v" "\<not> resolved num_rows v"
    by (auto simp: unresolved_at_def split: sum.splits)
  have "wait_for_translations poll num_rows n slept =
        wait_for_translations poll num_rows (Suc n) (slept @ [15])"
    by (subst wait_for_translations.simps) (simp add: v)
  also have "\<dots> = Some (poll (Suc n + k), (slept @ [15]) @ replicate k 15)"
    by (rule Suc.IH [OF rest fin])
  finally show ?case by (simp add: replicate_append_same)
qed

text \<open>
  C9. \<open>wait_for_translations\<close> returns the values of a read exactly when that read
  satisfies the success condition and every read before it succeeded without satisfying
  it; the condition is that the number of rows equals \<open>num_rows\<close>, that every row is
  non-empty (the cell has a value) and that no cell's text begins with \<open>=\<close>. Before
  each further read it sleeps 15 seconds. The number of reads has no ceiling: when no
  read satisfies the condition the loop never returns.
\<close>

theorem wait_for_translations_returns:
  "(wait_for_translations poll num_rows n slept = Some (Inr vals, slept') \<longleftrightarrow>
      (\<exists>k. polls_unresolved poll num_rows n k \<and> poll (n + k) = Inr vals
           \<and> resolved num_rows vals \<and> slept' = slept @ replicate k 15))
   \<and> (resolved num_rows vals \<longleftrightarrow>
        int (length vals) = num_rows
        \<and> (\<forall>row \<in> set vals. row \<noteq> [] \<and> take 1 (hd row) \<noteq> ''=''))
   \<and> ((\<forall>j. unresolved_at poll num_rows (n + j))
        \<longrightarrow> wait_for_translations poll num_rows n slept = None)"
proof (intro conjI)
  show "wait_for_translations poll num_rows n slept = Some (Inr vals, slept') \<longleftrightarrow>
      (\<exists>k. polls_unresolved poll num_rows n k \<and> poll (n + k) = Inr vals
           \<and> resolved num_rows vals \<and> slept' = slept @ replicate k 15)"
  proof
    assume "wait_for_translations poll num_rows n slept = Some (Inr vals, slept')"
    then have "poll_result poll num_rows n slept (Inr vals, slept')" by (rule wait_sound)
    then obtain k where k1: "polls_unresolved poll num_rows n k"
      and k2: "slept' = slept @ replicate k 15" and k3: "Inr vals = poll (n + k)"
      and k4: "case poll (n + k) of Inl e \<Rightarrow> True | Inr v \<Rightarrow> resolved num_rows v"
      unfolding poll_result_def by auto
    from k3 have p: "poll (n + k) = Inr vals" by simp
    with k4 have "resolved num_rows vals" by simp
    with k1 k2 p show "\<exists>k. polls_unresolved poll num_rows n k \<and> poll (n + k) = Inr vals
           \<and> resolved num_rows vals \<and> slept' = slept @ replicate k 15" by blast
  next
    assume "\<exists>k. polls_unresolved poll num_rows n k \<and> poll (n + k) = Inr vals
           \<and> resolved num_rows vals \<and> slept' = slept @ replicate k 15"
    then obtain k where k1: "polls_unresolved poll num_rows n k"
      and p: "poll (n + k) = Inr vals" and r: "resolved num_rows vals"
      and k2: "slept' = slept @ replicate k 15" by blast
    have "case poll (n + k) of Inl e \<Rightarrow> True | Inr v \<Rightarrow> resolved num_rows v"
      using p r by simp
    from wait_complete [OF k1 this]
    show "wait_for_translations poll num_rows n slept = Some (Inr vals, slept')"
      using p k2 by simp
  qed
next
  show "resolved num_rows vals \<longleftrightarrow>
        int (length vals) = num_rows
        \<and> (\<forall>row \<in> set vals. row \<noteq> [] \<and> take 1 (hd row) \<noteq> ''='')"
    by (rule resolved_iff)
next
  show "(\<forall>j. unresolved_at poll num_rows (n + j))
        \<longrightarrow> wait_for_translations poll num_rows n slept = None"
  proof
    assume never: "\<forall>j. unresolved_at poll num_rows (n + j)"
    show "wait_for_translations poll num_rows n slept = None"
    proof (cases "wait_for_translations poll num_rows n slept")
      case None
      then show ?thesis .
    next
      case (Some y)
      then have "poll_result poll num_rows n slept y" by (rule wait_sound)
      then obtain k where k4: "case poll (n + k) of Inl e \<Rightarrow> True | Inr v \<Rightarrow> resolved num_rows v"
        unfolding poll_result_def by blast
      from never have "unresolved_at poll num_rows (n + k)" ..
      with k4 have False by (simp add: unresolved_at_def split: sum.splits)
      then show ?thesis ..
    qed
  qed
qed

theorem wait_for_translations_returns_witness:
  "polls_unresolved translating 2 0 2 \<and> resolved 2 [[''adios''], [''hola'']]
   \<and> wait_for_translations translating 2 0 []
       = Some (Inr [[''adios''], [''hola'']], [15, 15])"
proof -
  have u: "polls_unresolved translating 2 0 2"
    by (simp add: polls_unresolved_def unresolved_at_def translating_def resolved_def
          numeral_2_eq_2)
  have r: "resolved 2 [[''adios''], [''hola'']]"
    by (simp add: resolved_def)
  have p: "translating (0 + 2) = Inr [[''adios''], [''hola'']]"
    by (simp add: translating_def)
  have s: "[15, 15] = [] @ replicate 2 (15 :: nat)"
    by (simp add: numeral_2_eq_2)
  note t = wait_for_translations_returns [of translating 2 0 "[]" "[[''adios''], [''hola'']]" "[15, 15]",
      THEN conjunct1, THEN iffD2]
  have "wait_for_translations translating 2 0 []
       = Some (Inr [[''adios''], [''hola'']], [15, 15])"
    by (rule t) (use u r p s in blast)
  with u r show ?thesis by simp
qed


section \<open>The retry executor: attempts, delays, and the final exception\<close>

lemma sleeps_append [simp]: "sleeps (xs @ ys) = sleeps xs @ sleeps ys"
  by (induction xs rule: sleeps.induct) auto

lemma retry_loop_Cons:
  "retry_loop sv func mr bd md (a # rest) w =
     (case func w of
        (Inr v, w1) \<Rightarrow> (Inr v, w1)
      | (Inl e, w1) \<Rightarrow>
          if int a = mr - 1 then (Inl e, w1)
          else if backoff_delay sv bd md a (draws w1) < 0
               then (Inl (PyError ''ValueError''), after_warning w1)
               else retry_loop sv func mr bd md rest (after_failure sv bd md a w1))"
  by (simp add: after_failure_def after_warning_def Let_def split: prod.splits sum.splits)

lemma after_warning_fields:
  "calls (after_warning u) = calls u"
  "draws (after_warning u) = Suc (draws u)"
  "sheet (after_warning u) = sheet u"
  "grid_rows (after_warning u) = grid_rows u"
  "trace (after_warning u) = trace u @ [Log WARNING ''Retrying after delay due to error'']"
  "sleeps (trace (after_warning u)) = sleeps (trace u)"
  by (simp_all add: after_warning_def log_def)

lemma after_failure_fields:
  "calls (after_failure sv bd md a u) = calls u"
  "draws (after_failure sv bd md a u) = Suc (draws u)"
  "sheet (after_failure sv bd md a u) = sheet u"
  "grid_rows (after_failure sv bd md a u) = grid_rows u"
  "sleeps (trace (after_failure sv bd md a u)) = sleeps (trace u) @ [backoff_delay sv bd md a (draws u)]"
  by (simp_all add: after_failure_def after_warning_fields)

lemma well_behaved_call:
  assumes "well_behaved I func outcome" and "I u" and "func u = (x, u')"
  shows "x = outcome (calls u)" and "calls u' = Suc (calls u)" and "draws u' = draws u"
    and "sleeps (trace u') = sleeps (trace u)" and "isl x \<Longrightarrow> I u'"
proof -
  from assms(1) have "\<forall>u. I u \<longrightarrow>
            fst (func u) = outcome (calls u)
          \<and> calls (snd (func u)) = Suc (calls u)
          \<and> draws (snd (func u)) = draws u
          \<and> sleeps (trace (snd (func u))) = sleeps (trace u)
          \<and> (isl (fst (func u)) \<longrightarrow> I (snd (func u)))"
    unfolding well_behaved_def by (rule conjunct1)
  then have "I u \<longrightarrow>
            fst (func u) = outcome (calls u)
          \<and> calls (snd (func u)) = Suc (calls u)
          \<and> draws (snd (func u)) = draws u
          \<and> sleeps (trace (snd (func u))) = sleeps (trace u)
          \<and> (isl (fst (func u)) \<longrightarrow> I (snd (func u)))" by (rule spec)
  with assms(2) have c: "fst (func u) = outcome (calls u)
          \<and> calls (snd (func u)) = Suc (calls u)
          \<and> draws (snd (func u)) = draws u
          \<and> sleeps (trace (snd (func u))) = sleeps (trace u)
          \<and> (isl (fst (func u)) \<longrightarrow> I (snd (func u)))" by (rule rev_mp)
  from c show "x = outcome (calls u)" by (simp add: assms(3))
  from c show "calls u' = Suc (calls u)" by (simp add: assms(3))
  from c show "draws u' = draws u" by (simp add: assms(3))
  from c show "sleeps (trace u') = sleeps (trace u)" by (simp add: assms(3))
  from c show "isl x \<Longrightarrow> I u'" by (simp add: assms(3))
qed

lemma well_behaved_stable:
  assumes "well_behaved I func outcome" and "I u"
  shows "I (after_failure sv bd md a u)"
proof -
  from assms(1) have "\<forall>u d t. I u \<longrightarrow> I (u\<lparr>draws := d, trace := t\<rparr>)"
    unfolding well_behaved_def by (rule conjunct2)
  with assms(2) have "I (u\<lparr>draws := Suc (draws u), trace := trace (after_failure sv bd md a u)\<rparr>)"
    by blast
  moreover have "after_failure sv bd md a u
      = u\<lparr>draws := Suc (draws u), trace := trace (after_failure sv bd md a u)\<rparr>"
    by (simp add: after_failure_def after_warning_def log_def)
  ultimately show ?thesis by simp
qed

lemma loop_end_one:
  "r = outcome c \<Longrightarrow> (isl r \<Longrightarrow> budget = 1) \<Longrightarrow> loop_end outcome c 1 budget d r"
  by (auto simp: loop_end_def)

lemma loop_end_sleep_error:
  "isl (outcome c) \<Longrightarrow> 1 < budget \<Longrightarrow> d < 0 \<Longrightarrow>
   loop_end outcome c 1 budget d (Inl (PyError ''ValueError''))"
  by (simp add: loop_end_def)

lemma loop_end_shift:
  "0 < m \<Longrightarrow> Suc a < n \<Longrightarrow> loop_end outcome (Suc c) m (n - Suc a) d r
     \<Longrightarrow> loop_end outcome c (Suc m) (n - a) d r"
  by (auto simp: loop_end_def)

lemma retry_loop_spec:
  assumes wb: "well_behaved I func outcome"
  shows "a \<le> n \<Longrightarrow> n = nat mr \<Longrightarrow> I w \<Longrightarrow>
     retry_loop sv func mr bd md [a..<n] w = (r, w') \<Longrightarrow>
     (\<exists>m. m \<le> n - a \<and> calls w' = calls w + m
        \<and> sleeps (trace w') = sleeps (trace w) @
             map (\<lambda>i. backoff_delay sv bd md (a + i) (draws w + i)) [0..<m - 1]
        \<and> (\<forall>i<m - 1. isl (outcome (calls w + i))
                      \<and> 0 \<le> backoff_delay sv bd md (a + i) (draws w + i))
        \<and> (a = n \<longrightarrow> m = 0 \<and> r = Inr None)
        \<and> (a < n \<longrightarrow> 0 < m
              \<and> loop_end outcome (calls w) m (n - a)
                    (backoff_delay sv bd md (a + m - 1) (draws w + m - 1)) r))"
proof (induction "n - a" arbitrary: a w)
  case 0
  then have an: "a = n" by simp
  with 0 have "r = Inr None" "w' = w" by simp_all
  with an show ?case by simp
next
  case (Suc k)
  then have lt: "a < n" by simp
  then have upt: "[a..<n] = a # [Suc a..<n]" by (simp add: upt_rec)
  obtain x u where fu: "func w = (x, u)" by (cases "func w")
  note inv = Suc.prems(3)
  note x = well_behaved_call(1) [OF wb inv fu]
  note cu = well_behaved_call(2) [OF wb inv fu]
  note du = well_behaved_call(3) [OF wb inv fu]
  note su = well_behaved_call(4) [OF wb inv fu]
  have loop: "retry_loop sv func mr bd md (a # [Suc a..<n]) w = (r, w')"
    using Suc.prems(4) upt by simp
  have one: "calls w' = Suc (calls w) \<Longrightarrow> sleeps (trace w') = sleeps (trace w) \<Longrightarrow>
      loop_end outcome (calls w) 1 (n - a) (backoff_delay sv bd md a (draws w)) r \<Longrightarrow> ?case"
  proof -
    assume c: "calls w' = Suc (calls w)" and s: "sleeps (trace w') = sleeps (trace w)"
      and e: "loop_end outcome (calls w) 1 (n - a) (backoff_delay sv bd md a (draws w)) r"
    have "1 \<le> n - a" using lt by simp
    moreover have "calls w' = calls w + 1" using c by simp
    moreover have "sleeps (trace w') = sleeps (trace w) @
             map (\<lambda>i. backoff_delay sv bd md (a + i) (draws w + i)) [0..<1 - 1]"
      using s by simp
    moreover have "\<forall>i<(1::nat) - 1. isl (outcome (calls w + i))
                      \<and> 0 \<le> backoff_delay sv bd md (a + i) (draws w + i)" by simp
    moreover have "a = n \<longrightarrow> (1::nat) = 0 \<and> r = Inr None" using lt by simp
    moreover have "a < n \<longrightarrow> 0 < (1::nat)
              \<and> loop_end outcome (calls w) 1 (n - a)
                    (backoff_delay sv bd md (a + 1 - 1) (draws w + 1 - 1)) r"
      using e by simp
    ultimately show ?case by (intro exI [of _ 1] conjI)
  qed
  show ?case
  proof (cases x)
    case (Inr v)
    with loop fu have rw: "r = x" "w' = u" by (simp_all add: retry_loop_Cons del: retry_loop.simps)
    have "loop_end outcome (calls w) 1 (n - a) (backoff_delay sv bd md a (draws w)) r"
      by (rule loop_end_one) (simp_all add: rw x [symmetric] Inr)
    then show ?thesis using one rw cu su by simp
  next
    case (Inl e)
    have ix: "isl x" using Inl by simp
    have io: "isl (outcome (calls w))" using ix unfolding x .
    show ?thesis
    proof (cases "int a = mr - 1")
      case True
      with loop fu Inl have rw: "r = x" "w' = u"
        by (simp_all add: retry_loop_Cons del: retry_loop.simps)
      from True Suc.prems(2) have "n - a = 1" by simp
      then have "loop_end outcome (calls w) 1 (n - a) (backoff_delay sv bd md a (draws w)) r"
        by (intro loop_end_one) (simp_all add: rw x [symmetric])
      then show ?thesis using one rw cu su by simp
    next
      case False
      from False Suc.prems(2) lt have lt': "Suc a < n" by linarith
      show ?thesis
      proof (cases "backoff_delay sv bd md a (draws w) < 0")
        case True
        with False loop fu Inl du have rw: "r = Inl (PyError ''ValueError'')" "w' = after_warning u"
          by (simp_all add: retry_loop_Cons del: retry_loop.simps)
        have "1 < n - a" using lt' by simp
        with io True
        have "loop_end outcome (calls w) 1 (n - a) (backoff_delay sv bd md a (draws w)) r"
          unfolding rw by (intro loop_end_sleep_error)
        then show ?thesis using one rw cu su by (simp add: after_warning_fields)
      next
        case nonneg: False
        let ?u3 = "after_failure sv bd md a u"
        from False nonneg loop fu Inl du
        have rec: "retry_loop sv func mr bd md [Suc a..<n] ?u3 = (r, w')"
          by (simp add: retry_loop_Cons del: retry_loop.simps)
        have c3: "calls ?u3 = Suc (calls w)" and d3: "draws ?u3 = Suc (draws w)"
          and s3: "sleeps (trace ?u3) = sleeps (trace w) @ [backoff_delay sv bd md a (draws w)]"
          by (simp_all add: after_failure_fields cu du su)
        have "I u" by (rule well_behaved_call(5) [OF wb inv fu ix])
        then have i3: "I ?u3" by (rule well_behaved_stable [OF wb])
        have k: "k = n - Suc a" using Suc.hyps(2) by simp
        have le': "Suc a \<le> n" using lt by simp
        from Suc.hyps(1) [OF k le' Suc.prems(2) i3 rec]
        obtain m where mm: "m \<le> n - Suc a \<and> calls w' = calls ?u3 + m
          \<and> sleeps (trace w') = sleeps (trace ?u3) @
               map (\<lambda>i. backoff_delay sv bd md (Suc a + i) (draws ?u3 + i)) [0..<m - 1]
          \<and> (\<forall>i<m - 1. isl (outcome (calls ?u3 + i))
                      \<and> 0 \<le> backoff_delay sv bd md (Suc a + i) (draws ?u3 + i))
          \<and> (Suc a = n \<longrightarrow> m = 0 \<and> r = Inr None)
          \<and> (Suc a < n \<longrightarrow> 0 < m
              \<and> loop_end outcome (calls ?u3) m (n - Suc a)
                    (backoff_delay sv bd md (Suc a + m - 1) (draws ?u3 + m - 1)) r)" ..
        note m1 = mm [THEN conjunct1]
        note m2 = mm [THEN conjunct2, THEN conjunct1]
        note m4 = mm [THEN conjunct2, THEN conjunct2, THEN conjunct1]
        note m5 = mm [THEN conjunct2, THEN conjunct2, THEN conjunct2, THEN conjunct1]
        note m6 = mm [THEN conjunct2, THEN conjunct2, THEN conjunct2, THEN conjunct2, THEN conjunct2,
                      rule_format, OF lt']
        note pos = m6 [THEN conjunct1]
        note fin = m6 [THEN conjunct2]
        have shift: "map (\<lambda>i. backoff_delay sv bd md (Suc a + i) (draws ?u3 + i)) [0..<m - 1]
                   = map (\<lambda>i. backoff_delay sv bd md (a + i) (draws w + i)) [1..<m]"
        proof -
          have "[1..<m] = map Suc [0..<m - 1]"
            using pos by (simp add: map_Suc_upt)
          then show ?thesis by (simp add: d3 comp_def)
        qed
        have map_eq: "map (\<lambda>i. backoff_delay sv bd md (a + i) (draws w + i)) [0..<Suc m - 1] =
              backoff_delay sv bd md a (draws w) #
              map (\<lambda>i. backoff_delay sv bd md (Suc a + i) (draws ?u3 + i)) [0..<m - 1]"
          unfolding shift using pos by (simp add: upt_rec [of 0 m])
        have all: "\<forall>i<Suc m - 1. isl (outcome (calls w + i))
                      \<and> 0 \<le> backoff_delay sv bd md (a + i) (draws w + i)"
        proof (intro allI impI)
          fix i assume i: "i < Suc m - 1"
          show "isl (outcome (calls w + i)) \<and> 0 \<le> backoff_delay sv bd md (a + i) (draws w + i)"
          proof (cases i)
            case 0
            then show ?thesis using io nonneg by simp
          next
            case (Suc j)
            with i have "j < m - 1" by simp
            with m5 have "isl (outcome (calls ?u3 + j))
                      \<and> 0 \<le> backoff_delay sv bd md (Suc a + j) (draws ?u3 + j)" by blast
            then show ?thesis unfolding Suc c3 d3 by simp
          qed
        qed
        have e1: "Suc a + m - 1 = a + Suc m - 1" "draws ?u3 + m - 1 = draws w + Suc m - 1"
          using pos d3 by simp_all
        have "loop_end outcome (Suc (calls w)) m (n - Suc a)
                (backoff_delay sv bd md (a + Suc m - 1) (draws w + Suc m - 1)) r"
          using fin unfolding c3 e1 .
        with pos lt' have g5: "loop_end outcome (calls w) (Suc m) (n - a)
                (backoff_delay sv bd md (a + Suc m - 1) (draws w + Suc m - 1)) r"
          by (rule loop_end_shift)
        have g1: "Suc m \<le> n - a" using m1 lt' by simp
        have g2: "calls w' = calls w + Suc m" using m2 c3 by simp
        have g4: "sleeps (trace w') = sleeps (trace w) @
               map (\<lambda>i. backoff_delay sv bd md (a + i) (draws w + i)) [0..<Suc m - 1]"
          unfolding map_eq using m4 s3 by simp
        have g6: "a = n \<longrightarrow> Suc m = 0 \<and> r = Inr None" using lt by simp
        have g7: "a < n \<longrightarrow> 0 < Suc m
              \<and> loop_end outcome (calls w) (Suc m) (n - a)
                    (backoff_delay sv bd md (a + Suc m - 1) (draws w + Suc m - 1)) r"
          using g5 by simp
        show ?thesis
          using g1 g2 g4 all g6 g7 by (intro exI [of _ "Suc m"] conjI)
      qed
    qed
  qed
qed




lemma synthesize_speech_well_behaved:
  "well_behaved (\<lambda>u. True) (synthesize_speech sv sentence voice rate enc)
     (\<lambda>n. case fault sv n of Some e \<Rightarrow> Inl e | None \<Rightarrow> Inr (Some (tts_audio sv n)))"
  by (simp add: well_behaved_def synthesize_speech_def remote_def Let_def split: option.splits)

lemma upload_audio_file_well_behaved:
  "well_behaved (\<lambda>u. True) (upload_audio_file sv folder_id filename content enc)
     (\<lambda>n. case fault sv n of Some e \<Rightarrow> Inl e | None \<Rightarrow> Inr (drive_link sv n))"
  by (simp add: well_behaved_def upload_audio_file_def remote_def log_def Let_def
        split: option.splits)

lemma update_call_well_behaved:
  "well_behaved (\<lambda>u. grid_rows u = rows) (update_call sv first_row column_letter vals)
     (\<lambda>n. case fault sv n of Some e \<Rightarrow> Inl e
          | None \<Rightarrow> if \<not> range_valid (Span column_letter first_row None)
                    then Inl (HttpError ''Unable to parse range'')
                    else if \<not> update_fits (Span column_letter first_row None) vals rows
                    then Inl (HttpError ''Range exceeds grid limits'')
                    else Inr (Some ()))"
  by (simp add: well_behaved_def update_call_def values_update_def remote_def Let_def
        split: option.splits)







section \<open>What the steps leave unchanged\<close>

lemma same_sheet_refl [simp]: "same_sheet w w"
  by (simp add: same_sheet_def)

lemma same_sheet_trans: "same_sheet w u \<Longrightarrow> same_sheet u v \<Longrightarrow> same_sheet w v"
  by (simp add: same_sheet_def)

lemma log_fields [simp]:
  "sheet (log lvl msg w) = sheet w" "grid_rows (log lvl msg w) = grid_rows w"
  "calls (log lvl msg w) = calls w" "draws (log lvl msg w) = draws w"
  "trace (log lvl msg w) = trace w @ [Log lvl msg]"
  by (simp_all add: log_def)

lemma same_sheet_log [simp]: "same_sheet w (log lvl msg u) = same_sheet w u"
  by (simp add: same_sheet_def)

lemma same_sheet_after_warning [simp]: "same_sheet w (after_warning u) = same_sheet w u"
  by (simp add: same_sheet_def after_warning_fields)

lemma same_sheet_after_failure [simp]: "same_sheet w (after_failure sv bd md a u) = same_sheet w u"
  by (simp add: same_sheet_def after_failure_fields)

lemma extends_refl [simp]: "extends P w w"
  by (simp add: extends_def)

lemma extends_trans: "extends P w u \<Longrightarrow> extends P u v \<Longrightarrow> extends P w v"
proof -
  assume "extends P w u" "extends P u v"
  then obtain e1 e2 where "trace u = trace w @ e1" "filter P e1 = []"
    "trace v = trace u @ e2" "filter P e2 = []"
    unfolding extends_def by blast
  then have "trace v = trace w @ (e1 @ e2) \<and> filter P (e1 @ e2) = []" by simp
  then show ?thesis unfolding extends_def by blast
qed

lemma extends_filter: "extends P w w' \<Longrightarrow> filter P (trace w') = filter P (trace w)"
  by (auto simp: extends_def)

lemma extends_step:
  "trace u' = trace u @ [ev] \<Longrightarrow> \<not> P ev \<Longrightarrow> extends P w u \<Longrightarrow> extends P w u'"
proof -
  assume t: "trace u' = trace u @ [ev]" and np: "\<not> P ev" and e: "extends P w u"
  have "extends P u u'" unfolding extends_def using t np by simp
  with e show ?thesis by (rule extends_trans)
qed

lemma extends_log: "\<not> P (Log lvl msg) \<Longrightarrow> extends P w u \<Longrightarrow> extends P w (log lvl msg u)"
  by (rule extends_step [of _ u "Log lvl msg"]) simp_all

lemma extends_after_warning:
  "\<not> P (Log WARNING ''Retrying after delay due to error'') \<Longrightarrow> extends P w u
     \<Longrightarrow> extends P w (after_warning u)"
  by (rule extends_step [of _ u "Log WARNING ''Retrying after delay due to error''"])
     (simp_all add: after_warning_fields)

lemma extends_after_failure:
  assumes "\<not> P (Log WARNING ''Retrying after delay due to error'')" and "\<And>d. \<not> P (Sleep d)"
    and "extends P w u"
  shows "extends P w (after_failure sv bd md a u)"
proof -
  have "extends P w (after_warning u)" by (rule extends_after_warning [OF assms(1,3)])
  moreover have "trace (after_failure sv bd md a u)
      = trace (after_warning u) @ [Sleep (backoff_delay sv bd md a (draws u))]"
    by (simp add: after_failure_def)
  ultimately show ?thesis using assms(2) by (rule extends_step [rotated 2])
qed

lemma remote_result:
  "remote sv ev w =
     (case fault sv (calls w) of Some e \<Rightarrow> Inl e | None \<Rightarrow> Inr (calls w),
      w\<lparr>calls := Suc (calls w), trace := trace w @ [ev]\<rparr>)"
  by (simp add: remote_def Let_def split: option.splits)

lemma remote_frame: "remote sv ev w = (x, w1) \<Longrightarrow> same_sheet w w1"
  by (auto simp: remote_result same_sheet_def)

lemma remote_extends: "remote sv ev w = (x, w1) \<Longrightarrow> \<not> P ev \<Longrightarrow> extends P w w1"
  by (rule extends_step [of _ w ev]) (auto simp: remote_result)

lemma values_get_frame: "values_get sv rng w = (x, w1) \<Longrightarrow> same_sheet w w1"
  by (auto simp: values_get_def remote_result same_sheet_def split: option.splits if_splits)

lemma values_get_trace: "values_get sv rng w = (x, w1) \<Longrightarrow> trace w1 = trace w @ [SheetsGet rng]"
  by (auto simp: values_get_def remote_result split: option.splits if_splits)

lemma values_get_extends:
  "values_get sv rng w = (x, w1) \<Longrightarrow> \<not> P (SheetsGet rng) \<Longrightarrow> extends P w w1"
  by (rule extends_step [of _ w "SheetsGet rng"]) (simp_all add: values_get_trace)

lemma values_update_trace:
  "values_update sv rng vs w = (x, w1) \<Longrightarrow> trace w1 = trace w @ [SheetsUpdate rng vs]"
  by (auto simp: values_update_def remote_result split: option.splits if_splits)

lemma values_update_failure_frame:
  "values_update sv rng vs w = (Inl e, w1) \<Longrightarrow> same_sheet w w1"
  by (auto simp: values_update_def remote_result same_sheet_def split: option.splits if_splits)

lemma values_update_success:
  "values_update sv rng vs w = (Inr x, w1) \<Longrightarrow>
     sheet w1 = (sheet w)(range_column rng :=
                   write_cells (sheet w (range_column rng)) (range_first rng) vs)
     \<and> grid_rows w1 = grid_rows w"
  by (auto simp: values_update_def remote_result split: option.splits if_splits)

lemma retry_loop_rel:
  assumes refl: "\<And>u. R u u" and trans: "\<And>u v x. R u v \<Longrightarrow> R v x \<Longrightarrow> R u x"
    and f: "\<And>u x u'. func u = (x, u') \<Longrightarrow> R u u'"
    and aw: "\<And>u. R u (after_warning u)" and af: "\<And>u a. R u (after_failure sv bd md a u)"
  shows "retry_loop sv func mr bd md atts w = (r, w') \<Longrightarrow> R w w'"
proof (induction atts arbitrary: w)
  case Nil
  then show ?case by (simp add: refl)
next
  case (Cons a atts)
  obtain x u where fu: "func w = (x, u)" by (cases "func w")
  have wu: "R w u" by (rule f [OF fu])
  show ?case
  proof (cases x)
    case (Inr v)
    with Cons.prems fu have "w' = u" by (simp add: retry_loop_Cons del: retry_loop.simps)
    with wu show ?thesis by simp
  next
    case (Inl e)
    show ?thesis
    proof (cases "int a = mr - 1")
      case True
      with Cons.prems fu Inl have "w' = u" by (simp add: retry_loop_Cons del: retry_loop.simps)
      with wu show ?thesis by simp
    next
      case False
      show ?thesis
      proof (cases "backoff_delay sv bd md a (draws u) < 0")
        case True
        with False Cons.prems fu Inl have "w' = after_warning u"
          by (simp add: retry_loop_Cons del: retry_loop.simps)
        with trans [OF wu aw] show ?thesis by simp
      next
        case nonneg: False
        with False Cons.prems fu Inl
        have "retry_loop sv func mr bd md atts (after_failure sv bd md a u) = (r, w')"
          by (simp add: retry_loop_Cons del: retry_loop.simps)
        then have "R (after_failure sv bd md a u) w'" by (rule Cons.IH)
        with trans [OF wu af] show ?thesis by (rule trans)
      qed
    qed
  qed
qed

lemma retry_loop_failure_rel:
  assumes refl: "\<And>u. R u u" and trans: "\<And>u v x. R u v \<Longrightarrow> R v x \<Longrightarrow> R u x"
    and f: "\<And>u e u'. func u = (Inl e, u') \<Longrightarrow> R u u'"
    and aw: "\<And>u. R u (after_warning u)" and af: "\<And>u a. R u (after_failure sv bd md a u)"
  shows "retry_loop sv func mr bd md atts w = (Inl ex, w') \<Longrightarrow> R w w'"
proof (induction atts arbitrary: w)
  case Nil
  then show ?case by simp
next
  case (Cons a atts)
  obtain x u where fu: "func w = (x, u)" by (cases "func w")
  show ?case
  proof (cases x)
    case (Inr v)
    with Cons.prems fu show ?thesis by (simp add: retry_loop_Cons del: retry_loop.simps)
  next
    case (Inl e)
    have wu: "R w u" using f fu Inl by simp
    show ?thesis
    proof (cases "int a = mr - 1")
      case True
      with Cons.prems fu Inl have "w' = u" by (simp add: retry_loop_Cons del: retry_loop.simps)
      with wu show ?thesis by simp
    next
      case False
      show ?thesis
      proof (cases "backoff_delay sv bd md a (draws u) < 0")
        case True
        with False Cons.prems fu Inl have "w' = after_warning u"
          by (simp add: retry_loop_Cons del: retry_loop.simps)
        with trans [OF wu aw] show ?thesis by simp
      next
        case nonneg: False
        with False Cons.prems fu Inl
        have "retry_loop sv func mr bd md atts (after_failure sv bd md a u) = (Inl ex, w')"
          by (simp add: retry_loop_Cons del: retry_loop.simps)
        then have "R (after_failure sv bd md a u) w'" by (rule Cons.IH)
        with trans [OF wu af] show ?thesis by (rule trans)
      qed
    qed
  qed
qed

lemma retry_frame:
  assumes "\<And>u x u'. func u = (x, u') \<Longrightarrow> same_sheet u u'"
    and "exponential_backoff_retry sv func mr bd md w = (r, w')"
  shows "same_sheet w w'"
proof -
  from assms(2) have l: "retry_loop sv func mr bd md [0..<nat mr] w = (r, w')"
    by (simp only: exponential_backoff_retry_def)
  show ?thesis
  proof (rule retry_loop_rel [where R = same_sheet, OF _ _ _ _ _ l])
    show "\<And>u. same_sheet u u" by simp
    show "\<And>u v x. same_sheet u v \<Longrightarrow> same_sheet v x \<Longrightarrow> same_sheet u x"
      by (rule same_sheet_trans)
    show "\<And>u x u'. func u = (x, u') \<Longrightarrow> same_sheet u u'" by (rule assms(1))
    show "\<And>u. same_sheet u (after_warning u)" by simp
    show "\<And>u a. same_sheet u (after_failure sv bd md a u)" by simp
  qed
qed

lemma retry_failure_frame:
  assumes "\<And>u e u'. func u = (Inl e, u') \<Longrightarrow> same_sheet u u'"
    and "exponential_backoff_retry sv func mr bd md w = (Inl ex, w')"
  shows "same_sheet w w'"
proof -
  from assms(2) have l: "retry_loop sv func mr bd md [0..<nat mr] w = (Inl ex, w')"
    by (simp only: exponential_backoff_retry_def)
  show ?thesis
  proof (rule retry_loop_failure_rel [where R = same_sheet, OF _ _ _ _ _ l])
    show "\<And>u. same_sheet u u" by simp
    show "\<And>u v x. same_sheet u v \<Longrightarrow> same_sheet v x \<Longrightarrow> same_sheet u x"
      by (rule same_sheet_trans)
    show "\<And>u e u'. func u = (Inl e, u') \<Longrightarrow> same_sheet u u'" by (rule assms(1))
    show "\<And>u. same_sheet u (after_warning u)" by simp
    show "\<And>u a. same_sheet u (after_failure sv bd md a u)" by simp
  qed
qed

lemma retry_extends:
  assumes "\<And>u x u'. func u = (x, u') \<Longrightarrow> extends P u u'"
    and "\<not> P (Log WARNING ''Retrying after delay due to error'')" and "\<And>d. \<not> P (Sleep d)"
    and "exponential_backoff_retry sv func mr bd md w = (r, w')"
  shows "extends P w w'"
proof -
  from assms(4) have l: "retry_loop sv func mr bd md [0..<nat mr] w = (r, w')"
    by (simp only: exponential_backoff_retry_def)
  show ?thesis
  proof (rule retry_loop_rel [where R = "extends P", OF _ _ _ _ _ l])
    show "\<And>u. extends P u u" by simp
    show "\<And>u v x. extends P u v \<Longrightarrow> extends P v x \<Longrightarrow> extends P u x"
      by (rule extends_trans)
    show "\<And>u x u'. func u = (x, u') \<Longrightarrow> extends P u u'" by (rule assms(1))
    show "\<And>u. extends P u (after_warning u)"
      by (rule extends_after_warning [where P = P, OF assms(2)]) simp
    show "\<And>u a. extends P u (after_failure sv bd md a u)"
      by (rule extends_after_failure [where P = P, OF assms(2) assms(3)]) simp
  qed
qed

lemma synthesize_speech_frame:
  "synthesize_speech sv sentence voice rate enc u = (x, u') \<Longrightarrow> same_sheet u u'"
  by (auto simp: synthesize_speech_def remote_result same_sheet_def split: option.splits)

lemma upload_audio_file_frame:
  "upload_audio_file sv folder_id filename content enc u = (x, u') \<Longrightarrow> same_sheet u u'"
  by (auto simp: upload_audio_file_def remote_result same_sheet_def Let_def split: option.splits)

lemma synthesize_speech_extends:
  "\<not> P (TtsSynthesize sentence) \<Longrightarrow> synthesize_speech sv sentence voice rate enc u = (x, u')
     \<Longrightarrow> extends P u u'"
proof -
  assume np: "\<not> P (TtsSynthesize sentence)"
    and s: "synthesize_speech sv sentence voice rate enc u = (x, u')"
  obtain y u1 where r: "remote sv (TtsSynthesize sentence) u = (y, u1)"
    by (cases "remote sv (TtsSynthesize sentence) u")
  then have "extends P u u1" using np by (rule remote_extends)
  moreover have "u' = u1" using s r by (auto simp: synthesize_speech_def split: sum.splits)
  ultimately show ?thesis by simp
qed

lemma upload_audio_file_extends:
  "\<not> P (DriveUpload folder_id filename (get_mime_type enc)) \<Longrightarrow>
   \<not> P (Log INFO ''Uploaded file to folder'') \<Longrightarrow>
   upload_audio_file sv folder_id filename content enc u = (x, u') \<Longrightarrow> extends P u u'"
proof -
  assume np: "\<not> P (DriveUpload folder_id filename (get_mime_type enc))"
    and nl: "\<not> P (Log INFO ''Uploaded file to folder'')"
    and s: "upload_audio_file sv folder_id filename content enc u = (x, u')"
  obtain y u1 where r: "remote sv (DriveUpload folder_id filename (get_mime_type enc)) u = (y, u1)"
    by (cases "remote sv (DriveUpload folder_id filename (get_mime_type enc)) u")
  then have e: "extends P u u1" using np by (rule remote_extends)
  have "u' = u1 \<or> u' = log INFO ''Uploaded file to folder'' u1"
    using s r by (auto simp: upload_audio_file_def Let_def split: sum.splits)
  then show ?thesis using e nl by (auto intro: extends_log)
qed

lemma synthesize_speech_with_retry_frame:
  assumes a: "synthesize_speech_with_retry sv sentence voice rate enc w = (x, w')"
  shows "same_sheet w w'"
proof -
  obtain r w1 where e: "exponential_backoff_retry sv (synthesize_speech sv sentence voice rate enc) 5 1 16 w = (r, w1)"
    by (cases "exponential_backoff_retry sv (synthesize_speech sv sentence voice rate enc) 5 1 16 w")
  have "same_sheet w w1" by (rule retry_frame [OF synthesize_speech_frame e])
  moreover have "same_sheet w1 w'"
    using a e by (auto simp: synthesize_speech_with_retry_def split: sum.splits exn.splits)
  ultimately show ?thesis by (rule same_sheet_trans)
qed

lemma upload_audio_file_with_retry_frame:
  assumes a: "upload_audio_file_with_retry sv folder_id filename content enc w = (x, w')"
  shows "same_sheet w w'"
proof -
  obtain r w1 where e: "exponential_backoff_retry sv (upload_audio_file sv folder_id filename content enc) 5 1 16 w = (r, w1)"
    by (cases "exponential_backoff_retry sv (upload_audio_file sv folder_id filename content enc) 5 1 16 w")
  have "same_sheet w w1" by (rule retry_frame [OF upload_audio_file_frame e])
  moreover have "same_sheet w1 w'"
    using a e by (auto simp: upload_audio_file_with_retry_def split: sum.splits exn.splits)
  ultimately show ?thesis by (rule same_sheet_trans)
qed

lemma synthesize_speech_with_retry_extends:
  assumes "\<not> P (TtsSynthesize sentence)"
    and "\<And>lvl msg. lvl \<noteq> INFO \<Longrightarrow> \<not> P (Log lvl msg)" and "\<And>d. \<not> P (Sleep d)"
    and a: "synthesize_speech_with_retry sv sentence voice rate enc w = (x, w')"
  shows "extends P w w'"
proof -
  obtain r w1 where e: "exponential_backoff_retry sv (synthesize_speech sv sentence voice rate enc) 5 1 16 w = (r, w1)"
    by (cases "exponential_backoff_retry sv (synthesize_speech sv sentence voice rate enc) 5 1 16 w")
  have f: "\<And>u x u'. synthesize_speech sv sentence voice rate enc u = (x, u') \<Longrightarrow> extends P u u'"
    by (rule synthesize_speech_extends [where P = P and sentence = sentence, OF assms(1)])
  have np: "\<not> P (Log WARNING ''Retrying after delay due to error'')" by (rule assms(2)) simp
  have "extends P w w1" by (rule retry_extends [where P = P, OF f np assms(3) e])
  moreover have "w' = w1 \<or> (\<exists>msg. w' = log ERROR msg w1)"
    using a e by (auto simp: synthesize_speech_with_retry_def split: sum.splits exn.splits)
  ultimately show ?thesis using assms(2) by (auto intro: extends_log)
qed

lemma upload_audio_file_with_retry_extends:
  assumes "\<not> P (DriveUpload folder_id filename (get_mime_type enc))"
    and "\<not> P (Log INFO ''Uploaded file to folder'')"
    and "\<And>lvl msg. lvl \<noteq> INFO \<Longrightarrow> \<not> P (Log lvl msg)" and "\<And>d. \<not> P (Sleep d)"
    and a: "upload_audio_file_with_retry sv folder_id filename content enc w = (x, w')"
  shows "extends P w w'"
proof -
  obtain r w1 where e: "exponential_backoff_retry sv (upload_audio_file sv folder_id filename content enc) 5 1 16 w = (r, w1)"
    by (cases "exponential_backoff_retry sv (upload_audio_file sv folder_id filename content enc) 5 1 16 w")
  have f: "\<And>u x u'. upload_audio_file sv folder_id filename content enc u = (x, u') \<Longrightarrow> extends P u u'"
    by (rule upload_audio_file_extends [where P = P and folder_id = folder_id
          and filename = filename and enc = enc, OF assms(1,2)])
  have np: "\<not> P (Log WARNING ''Retrying after delay due to error'')" by (rule assms(3)) simp
  have "extends P w w1" by (rule retry_extends [where P = P, OF f np assms(4) e])
  moreover have "w' = w1 \<or> (\<exists>msg. w' = log ERROR msg w1)"
    using a e by (auto simp: upload_audio_file_with_retry_def split: sum.splits exn.splits)
  ultimately show ?thesis using assms(3) by (auto intro: extends_log)
qed


section \<open>A row whose synthesis or upload fails\<close>

lemma update_call_failure_frame:
  "update_call sv r c vs u = (Inl e, u') \<Longrightarrow> same_sheet u u'"
proof -
  assume a: "update_call sv r c vs u = (Inl e, u')"
  obtain x u1 where v: "values_update sv (Span c r None) vs u = (x, u1)"
    by (cases "values_update sv (Span c r None) vs u")
  with a have "x = Inl e" "u' = u1" by (auto simp: update_call_def split: sum.splits)
  with v show ?thesis by (simp add: values_update_failure_frame)
qed

lemma update_call_trace:
  "update_call sv r c vs u = (x, u') \<Longrightarrow> trace u' = trace u @ [SheetsUpdate (Span c r None) vs]"
proof -
  assume a: "update_call sv r c vs u = (x, u')"
  obtain y u1 where v: "values_update sv (Span c r None) vs u = (y, u1)"
    by (cases "values_update sv (Span c r None) vs u")
  with a have "u' = u1" by (auto simp: update_call_def split: sum.splits)
  with v show ?thesis by (simp add: values_update_trace)
qed

lemma retry_outcome_all_fail:
  assumes wb: "well_behaved I func outcome" and inv: "I w"
    and run: "exponential_backoff_retry sv func mr bd md w = (r, w')"
    and pos: "0 < mr"
    and fails: "\<And>i. i < nat mr \<Longrightarrow> isl (outcome (calls w + i))"
  shows "isl r"
proof -
  let ?n = "nat mr"
  from run have loop: "retry_loop sv func mr bd md [0..<?n] w = (r, w')"
    by (simp add: exponential_backoff_retry_def)
  have le: "0 \<le> ?n" by simp
  from retry_loop_spec [OF wb le refl inv loop]
  obtain m where mm: "m \<le> ?n - 0 \<and> calls w' = calls w + m
        \<and> sleeps (trace w') = sleeps (trace w) @
             map (\<lambda>i. backoff_delay sv bd md (0 + i) (draws w + i)) [0..<m - 1]
        \<and> (\<forall>i<m - 1. isl (outcome (calls w + i))
                      \<and> 0 \<le> backoff_delay sv bd md (0 + i) (draws w + i))
        \<and> (0 = ?n \<longrightarrow> m = 0 \<and> r = Inr None)
        \<and> (0 < ?n \<longrightarrow> 0 < m
              \<and> loop_end outcome (calls w) m (?n - 0)
                    (backoff_delay sv bd md (0 + m - 1) (draws w + m - 1)) r)" ..
  note m1 = mm [THEN conjunct1]
  note m6 = mm [THEN conjunct2, THEN conjunct2, THEN conjunct2, THEN conjunct2, THEN conjunct2]
  from pos have npos: "0 < ?n" by simp
  note m7 = m6 [rule_format, OF npos]
  note mpos = m7 [THEN conjunct1]
  note fin = m7 [THEN conjunct2]
  have "m - 1 < ?n" using m1 mpos by simp
  then have "isl (outcome (calls w + (m - 1)))" by (rule fails)
  moreover have "calls w + (m - 1) = calls w + m - 1" using mpos by simp
  ultimately have io: "isl (outcome (calls w + m - 1))" by simp
  from fin show ?thesis unfolding loop_end_def using io by auto
qed

lemma fault_outcome:
  "fault sv n \<noteq> None \<Longrightarrow> isl (case fault sv n of Some e \<Rightarrow> Inl e | None \<Rightarrow> x)"
  by (cases "fault sv n") simp_all

lemma synthesize_speech_with_retry_exhausted:
  assumes "\<And>i. i < 5 \<Longrightarrow> fault sv (calls w + i) \<noteq> None"
  shows "fst (synthesize_speech_with_retry sv sentence voice rate enc w) = None"
proof -
  obtain r w1 where e: "exponential_backoff_retry sv (synthesize_speech sv sentence voice rate enc) 5 1 16 w = (r, w1)"
    by (cases "exponential_backoff_retry sv (synthesize_speech sv sentence voice rate enc) 5 1 16 w")
  have "isl r"
  proof (rule retry_outcome_all_fail [OF synthesize_speech_well_behaved _ e])
    show "True" ..
    show "(0::int) < 5" by simp
    fix i assume "i < nat 5"
    then have "i < 5" by simp
    then have "fault sv (calls w + i) \<noteq> None" by (rule assms)
    then show "isl (case fault sv (calls w + i) of Some e \<Rightarrow> Inl e
                    | None \<Rightarrow> Inr (Some (tts_audio sv (calls w + i))))"
      by (rule fault_outcome)
  qed
  then show ?thesis
    using e by (auto simp: synthesize_speech_with_retry_def isl_def split: exn.splits)
qed

lemma upload_audio_file_with_retry_exhausted:
  assumes "\<And>i. i < 5 \<Longrightarrow> fault sv (calls w + i) \<noteq> None"
  shows "fst (upload_audio_file_with_retry sv folder_id filename content enc w) = None"
proof -
  obtain r w1 where e: "exponential_backoff_retry sv (upload_audio_file sv folder_id filename content enc) 5 1 16 w = (r, w1)"
    by (cases "exponential_backoff_retry sv (upload_audio_file sv folder_id filename content enc) 5 1 16 w")
  have "isl r"
  proof (rule retry_outcome_all_fail [OF upload_audio_file_well_behaved _ e])
    show "True" ..
    show "(0::int) < 5" by simp
    fix i assume "i < nat 5"
    then have "i < 5" by simp
    then have "fault sv (calls w + i) \<noteq> None" by (rule assms)
    then show "isl (case fault sv (calls w + i) of Some e \<Rightarrow> Inl e
                    | None \<Rightarrow> Inr (drive_link sv (calls w + i)))"
      by (rule fault_outcome)
  qed
  then show ?thesis
    using e by (auto simp: upload_audio_file_with_retry_def isl_def split: exn.splits)
qed

lemma same_sheet_log_left [simp]: "same_sheet (log lvl msg w) u = same_sheet w u"
  by (simp add: same_sheet_def log_def)

lemma extends_log_left:
  "\<not> P (Log lvl msg) \<Longrightarrow> extends P (log lvl msg w) u \<Longrightarrow> extends P w u"
  by (rule extends_trans [OF extends_log [OF _ extends_refl]])

lemma same_sheet_gap:
  "same_sheet w w' \<Longrightarrow> sheet_gap (sheet w') (grid_rows w') a = sheet_gap (sheet w) (grid_rows w) a"
  by (simp add: same_sheet_def)

lemma synthesis_step_frame:
  assumes "synthesize_speech_with_retry sv sentence voice rate enc
             (log INFO ''Synthesizing audio for row'' w) = (audio, w1)"
  shows "same_sheet w w1" and "extends is_sheet_write w w1"
proof -
  from synthesize_speech_with_retry_frame [OF assms] show "same_sheet w w1" by simp
  have "extends is_sheet_write (log INFO ''Synthesizing audio for row'' w) w1"
    by (rule synthesize_speech_with_retry_extends [where P = is_sheet_write, OF _ _ _ assms])
       simp_all
  then show "extends is_sheet_write w w1" by (rule extends_log_left [rotated]) simp
qed

lemma upload_step_frame:
  assumes synth: "synthesize_speech_with_retry sv sentence voice rate enc
             (log INFO ''Synthesizing audio for row'' w) = (audio, w1)"
    and idget: "values_get sv rng w1 = (x, w2)"
    and upload: "upload_audio_file_with_retry sv folder filename content enc' w2 = (link, w3)"
  shows "same_sheet w w3" and "extends is_sheet_write w w3"
proof -
  note s = synthesis_step_frame [OF synth]
  have g: "same_sheet w1 w2" by (rule values_get_frame [OF idget])
  have u: "same_sheet w2 w3" by (rule upload_audio_file_with_retry_frame [OF upload])
  show "same_sheet w w3" by (rule same_sheet_trans [OF same_sheet_trans [OF s(1) g] u])
  have ge: "extends is_sheet_write w1 w2"
    by (rule values_get_extends [OF idget]) simp
  have ue: "extends is_sheet_write w2 w3"
    by (rule upload_audio_file_with_retry_extends [where P = is_sheet_write, OF _ _ _ _ upload])
       simp_all
  show "extends is_sheet_write w w3" by (rule extends_trans [OF extends_trans [OF s(2) ge] ue])
qed

lemma process_row_synthesis_failed:
  assumes "\<not> blank sentence"
    and "synthesize_speech_with_retry sv sentence (voice_name a) (speaking_rate a)
           (audio_encoding a) (log INFO ''Synthesizing audio for row'' w) = (audio, w1)"
    and "falsy audio"
  shows "process_row sv a row_num sentence folder w = (Inr (), w1)"
  using assms by (simp add: process_row_def)

lemma process_row_upload_failed:
  assumes "\<not> blank sentence"
    and "synthesize_speech_with_retry sv sentence (voice_name a) (speaking_rate a)
           (audio_encoding a) (log INFO ''Synthesizing audio for row'' w) = (Some content, w1)"
    and "content \<noteq> []"
    and "values_get sv (Span (id_column a) row_num (Some row_num)) w1 = (Inr vals, w2)"
    and "first_cell vals = Inr sentence_id" and "\<not> blank sentence_id"
    and "py_int sentence_id = Some n"
    and "upload_audio_file_with_retry sv folder (make_filename n) content (audio_encoding a) w2
           = (link, w3)"
    and "falsy link"
  shows "process_row sv a row_num sentence folder w = (Inr (), w3)"
  using assms by (simp add: process_row_def falsy_def)

lemma process_row_write:
  assumes "\<not> blank sentence"
    and "synthesize_speech_with_retry sv sentence (voice_name a) (speaking_rate a)
           (audio_encoding a) (log INFO ''Synthesizing audio for row'' w) = (Some content, w1)"
    and "content \<noteq> []"
    and "values_get sv (Span (id_column a) row_num (Some row_num)) w1 = (Inr vals, w2)"
    and "first_cell vals = Inr sentence_id" and "\<not> blank sentence_id"
    and "py_int sentence_id = Some n"
    and "upload_audio_file_with_retry sv folder (make_filename n) content (audio_encoding a) w2
           = (Some link, w3)"
    and "link \<noteq> []"
  shows "process_row sv a row_num sentence folder w
         = (Inr (), snd (update_sheet_cells_with_retry sv row_num (audio_link_column a)
                           [hyperlink_formula link (make_filename n)] 5
                           (log INFO ''Uploaded audio for row'' w3)))"
  using assms by (simp add: process_row_def falsy_def split: prod.splits)

lemma retry_first_success:
  assumes "func w = (Inr v, w1)" and "0 < mr"
  shows "exponential_backoff_retry sv func mr bd md w = (Inr v, w1)"
proof -
  from assms(2) obtain k where k: "nat mr = Suc k" by (cases "nat mr") auto
  show ?thesis
    unfolding exponential_backoff_retry_def k
    by (simp add: upt_rec [of 0 "Suc k"] retry_loop_Cons assms(1) del: retry_loop.simps upt_Suc)
qed

lemma values_get_ok:
  assumes "fault sv (calls w) = None" and "range_valid rng"
  shows "values_get sv rng w
         = (Inr (api_values (map (sheet w (range_column rng)) (range_rows rng (grid_rows w)))),
            w\<lparr>calls := calls w + 1, trace := trace w @ [SheetsGet rng]\<rparr>)"
  using assms by (simp add: values_get_def remote_def)

lemma synthesize_speech_with_retry_ok:
  assumes "fault sv (calls w) = None"
  shows "synthesize_speech_with_retry sv sentence voice rate enc w
         = (Some (tts_audio sv (calls w)),
            w\<lparr>calls := calls w + 1, trace := trace w @ [TtsSynthesize sentence]\<rparr>)"
proof -
  have "synthesize_speech sv sentence voice rate enc w
        = (Inr (Some (tts_audio sv (calls w))),
           w\<lparr>calls := calls w + 1, trace := trace w @ [TtsSynthesize sentence]\<rparr>)"
    using assms by (simp add: synthesize_speech_def remote_def)
  then have "exponential_backoff_retry sv (synthesize_speech sv sentence voice rate enc) 5 1 16 w
        = (Inr (Some (tts_audio sv (calls w))),
           w\<lparr>calls := calls w + 1, trace := trace w @ [TtsSynthesize sentence]\<rparr>)"
    by (rule retry_first_success) simp
  then show ?thesis by (simp add: synthesize_speech_with_retry_def)
qed

lemma upload_audio_file_with_retry_ok:
  assumes "fault sv (calls w) = None"
  shows "upload_audio_file_with_retry sv folder_id filename content enc w
         = (drive_link sv (calls w),
            log INFO ''Uploaded file to folder''
              (w\<lparr>calls := calls w + 1,
                 trace := trace w @ [DriveUpload folder_id filename (get_mime_type enc)]\<rparr>))"
proof -
  let ?w = "log INFO ''Uploaded file to folder''
              (w\<lparr>calls := calls w + 1,
                 trace := trace w @ [DriveUpload folder_id filename (get_mime_type enc)]\<rparr>)"
  have "upload_audio_file sv folder_id filename content enc w = (Inr (drive_link sv (calls w)), ?w)"
    using assms by (simp add: upload_audio_file_def remote_def)
  then have "exponential_backoff_retry sv (upload_audio_file sv folder_id filename content enc) 5 1 16 w
        = (Inr (drive_link sv (calls w)), ?w)"
    by (rule retry_first_success) simp
  then show ?thesis by (simp add: upload_audio_file_with_retry_def)
qed

lemma update_sheet_cells_with_retry_ok:
  assumes "fault sv (calls w) = None" and "1 \<le> r" and "r + int (length vs) - 1 \<le> grid_rows w"
    and "0 < mr"
  shows "update_sheet_cells_with_retry sv r c vs mr w
         = (Some (),
            w\<lparr>calls := calls w + 1, trace := trace w @ [SheetsUpdate (Span c r None) vs],
               sheet := (sheet w)(c := write_cells (sheet w c) r vs)\<rparr>)"
proof -
  let ?w = "w\<lparr>calls := calls w + 1, trace := trace w @ [SheetsUpdate (Span c r None) vs],
               sheet := (sheet w)(c := write_cells (sheet w c) r vs)\<rparr>"
  have "update_call sv r c vs w = (Inr (Some ()), ?w)"
    using assms(1-3)
    by (simp add: update_call_def values_update_def remote_def range_valid_def update_fits_def
          range_first_def range_column_def)
  then have "exponential_backoff_retry sv (update_call sv r c vs) mr 1 16 w = (Inr (Some ()), ?w)"
    using assms(4) by (rule retry_first_success)
  then show ?thesis by (simp add: update_sheet_cells_with_retry_def)
qed

lemma update_sheet_cells_with_retry_swallows:
  assumes "exponential_backoff_retry sv (update_call sv r c vs) mr 1 16 w = (Inl e, w')"
  shows "update_sheet_cells_with_retry sv r c vs mr w
         = (None, log ERROR (case e of HttpError x \<Rightarrow> ''Google Sheets API error while updating cells''
                              | PyError x \<Rightarrow> ''Unexpected error while updating cells'') w')"
    and "same_sheet w w'"
proof -
  show "update_sheet_cells_with_retry sv r c vs mr w
         = (None, log ERROR (case e of HttpError x \<Rightarrow> ''Google Sheets API error while updating cells''
                              | PyError x \<Rightarrow> ''Unexpected error while updating cells'') w')"
    using assms by (cases e) (simp_all add: update_sheet_cells_with_retry_def)
  show "same_sheet w w'"
    by (rule retry_failure_frame [OF update_call_failure_frame assms])
qed

lemma update_call_exhausted:
  assumes "\<And>i. i < 5 \<Longrightarrow> fault sv (calls w + i) \<noteq> None"
  shows "isl (fst (exponential_backoff_retry sv (update_call sv r c vs) 5 1 16 w))"
proof -
  obtain x w1 where e: "exponential_backoff_retry sv (update_call sv r c vs) 5 1 16 w = (x, w1)"
    by (cases "exponential_backoff_retry sv (update_call sv r c vs) 5 1 16 w")
  have "isl x"
  proof (rule retry_outcome_all_fail [OF update_call_well_behaved [where rows = "grid_rows w"] _ e])
    show "grid_rows w = grid_rows w" ..
    show "(0::int) < 5" by simp
    fix i assume "i < nat 5"
    then have "i < 5" by simp
    then have "fault sv (calls w + i) \<noteq> None" by (rule assms)
    then show "isl (case fault sv (calls w + i) of Some e \<Rightarrow> Inl e
          | None \<Rightarrow> if \<not> range_valid (Span c r None)
                    then Inl (HttpError ''Unable to parse range'')
                    else if \<not> update_fits (Span c r None) vs (grid_rows w)
                    then Inl (HttpError ''Range exceeds grid limits'')
                    else Inr (Some ()))"
      by (rule fault_outcome)
  qed
  with e show ?thesis by simp
qed

text \<open>
  C4. When the synthesis of a row's audio or the upload of its file fails after all
  retries, the wrapper with retry returns \<open>None\<close> (it does so when its five requests
  all fail) and \<open>process_row\<close> returns in the world the wrapper left: no cell of the
  sheet has changed, no update request was sent, and the gap of the sheet is what it
  was, so a row of the gap is in the gap again on the next run.
\<close>

theorem failed_row_writes_nothing:
  assumes nb: "\<not> blank sentence"
    and synth: "synthesize_speech_with_retry sv sentence (voice_name a) (speaking_rate a)
                  (audio_encoding a) (log INFO ''Synthesizing audio for row'' w) = (audio, w1)"
  shows "((\<forall>i<5. fault sv (calls w + i) \<noteq> None) \<longrightarrow> audio = None)
       \<and> (falsy audio \<longrightarrow>
            process_row sv a row_num sentence folder w = (Inr (), w1)
          \<and> same_sheet w w1 \<and> extends is_sheet_write w w1
          \<and> sheet_gap (sheet w1) (grid_rows w1) a = sheet_gap (sheet w) (grid_rows w) a)
       \<and> (\<forall>content vals w2 sentence_id n link w3.
            audio = Some content \<and> content \<noteq> []
          \<and> values_get sv (Span (id_column a) row_num (Some row_num)) w1 = (Inr vals, w2)
          \<and> first_cell vals = Inr sentence_id \<and> \<not> blank sentence_id
          \<and> py_int sentence_id = Some n
          \<and> upload_audio_file_with_retry sv folder (make_filename n) content (audio_encoding a) w2
              = (link, w3)
          \<longrightarrow> ((\<forall>i<5. fault sv (calls w2 + i) \<noteq> None) \<longrightarrow> link = None)
            \<and> (falsy link \<longrightarrow>
                  process_row sv a row_num sentence folder w = (Inr (), w3)
                \<and> same_sheet w w3 \<and> extends is_sheet_write w w3
                \<and> sheet_gap (sheet w3) (grid_rows w3) a = sheet_gap (sheet w) (grid_rows w) a))"
proof (intro conjI impI allI)
  assume f: "\<forall>i<5. fault sv (calls w + i) \<noteq> None"
  have "fst (synthesize_speech_with_retry sv sentence (voice_name a) (speaking_rate a)
          (audio_encoding a) (log INFO ''Synthesizing audio for row'' w)) = None"
  proof (rule synthesize_speech_with_retry_exhausted)
    fix i :: nat assume "i < 5"
    with f have "fault sv (calls w + i) \<noteq> None" by blast
    then show "fault sv (calls (log INFO ''Synthesizing audio for row'' w) + i) \<noteq> None" by simp
  qed
  with synth show "audio = None" by simp
next
  assume "falsy audio"
  with nb synth show "process_row sv a row_num sentence folder w = (Inr (), w1)"
    by (rule process_row_synthesis_failed)
next
  show "same_sheet w w1" by (rule synthesis_step_frame(1) [OF synth])
next
  show "extends is_sheet_write w w1" by (rule synthesis_step_frame(2) [OF synth])
next
  show "sheet_gap (sheet w1) (grid_rows w1) a = sheet_gap (sheet w) (grid_rows w) a"
    by (rule same_sheet_gap [OF synthesis_step_frame(1) [OF synth]])
next
  fix content vals w2 sentence_id n link w3
  assume p: "audio = Some content \<and> content \<noteq> []
          \<and> values_get sv (Span (id_column a) row_num (Some row_num)) w1 = (Inr vals, w2)
          \<and> first_cell vals = Inr sentence_id \<and> \<not> blank sentence_id
          \<and> py_int sentence_id = Some n
          \<and> upload_audio_file_with_retry sv folder (make_filename n) content (audio_encoding a) w2
              = (link, w3)"
  then have up: "upload_audio_file_with_retry sv folder (make_filename n) content
                   (audio_encoding a) w2 = (link, w3)"
    and idget: "values_get sv (Span (id_column a) row_num (Some row_num)) w1 = (Inr vals, w2)"
    by simp_all
  {
    assume f: "\<forall>i<5. fault sv (calls w2 + i) \<noteq> None"
    have "fst (upload_audio_file_with_retry sv folder (make_filename n) content
                 (audio_encoding a) w2) = None"
    proof (rule upload_audio_file_with_retry_exhausted)
      fix i :: nat assume "i < 5"
      with f show "fault sv (calls w2 + i) \<noteq> None" by blast
    qed
    with up show "link = None" by simp
  }
  {
    assume "falsy link"
    moreover from p synth have "synthesize_speech_with_retry sv sentence (voice_name a)
        (speaking_rate a) (audio_encoding a) (log INFO ''Synthesizing audio for row'' w)
        = (Some content, w1)" by simp
    moreover from p have "content \<noteq> []" "first_cell vals = Inr sentence_id"
      "\<not> blank sentence_id" "py_int sentence_id = Some n" by simp_all
    ultimately show "process_row sv a row_num sentence folder w = (Inr (), w3)"
      using nb idget up by (intro process_row_upload_failed)
  }
  show "same_sheet w w3" by (rule upload_step_frame(1) [OF synth idget up])
  show "extends is_sheet_write w w3" by (rule upload_step_frame(2) [OF synth idget up])
  show "sheet_gap (sheet w3) (grid_rows w3) a = sheet_gap (sheet w) (grid_rows w) a"
    by (rule same_sheet_gap [OF upload_step_frame(1) [OF synth idget up]])
qed

lemma blank_adios: "\<not> blank ''adios''"
  by (simp add: blank_Cons py_isspace_def)

lemma py_int_7: "py_int ''7'' = Some 7"
  by code_simp

lemma not_blank_7: "\<not> blank ''7''"
  by (simp add: blank_Cons py_isspace_def)

lemma lesson_id_3:
  "api_values (map (lesson ''A'') (range_rows (Span ''A'' 3 (Some 3)) 4)) = [[''7'']]"
  by (simp add: range_rows_def lesson_def api_values_def trim_empty_def)

theorem failed_row_writes_nothing_witness:
  "\<not> blank ''adios''
   \<and> fault (down_from 0) 4 = Some (HttpError ''503'')
   \<and> fst (process_row (down_from 0) opus_args 3 ''adios'' ''F'' classroom) = Inr ()
   \<and> sheet (snd (process_row (down_from 0) opus_args 3 ''adios'' ''F'' classroom)) = lesson
   \<and> filter is_sheet_write
        (trace (snd (process_row (down_from 0) opus_args 3 ''adios'' ''F'' classroom))) = []
   \<and> fst (process_row (down_from 2) opus_args 3 ''adios'' ''F'' classroom) = Inr ()
   \<and> sheet (snd (process_row (down_from 2) opus_args 3 ''adios'' ''F'' classroom)) = lesson
   \<and> filter is_sheet_write
        (trace (snd (process_row (down_from 2) opus_args 3 ''adios'' ''F'' classroom))) = []"
proof -
  let ?start = "log INFO ''Synthesizing audio for row'' classroom"
  have c0: "calls classroom = 0" "trace classroom = []" "sheet classroom = lesson"
    "grid_rows classroom = 4"
    by (simp_all add: classroom_def)
  have a0: "voice_name opus_args = ''es-ES-Standard-A''" "speaking_rate opus_args = 1"
    "audio_encoding opus_args = OGG_OPUS" "id_column opus_args = ''A''"
    by (simp_all add: opus_args_def)
  txt \<open>Every synthesis request fails.\<close>
  let ?s0 = "synthesize_speech_with_retry (down_from 0) ''adios'' (voice_name opus_args)
               (speaking_rate opus_args) (audio_encoding opus_args) ?start"
  have h0: "?s0 = (fst ?s0, snd ?s0)" by simp
  have f0: "\<forall>i<5. fault (down_from 0) (calls classroom + i) \<noteq> None"
    by (simp add: down_from_def)
  note t0 = failed_row_writes_nothing [OF blank_adios h0, where row_num = 3 and folder = "''F''"]
  from t0 [THEN conjunct1] f0 have "fst ?s0 = None" by (rule mp)
  then have "falsy (fst ?s0)" by (simp add: falsy_def)
  with t0 [THEN conjunct2, THEN conjunct1]
  have r0: "process_row (down_from 0) opus_args 3 ''adios'' ''F'' classroom = (Inr (), snd ?s0)
          \<and> same_sheet classroom (snd ?s0) \<and> extends is_sheet_write classroom (snd ?s0)
          \<and> sheet_gap (sheet (snd ?s0)) (grid_rows (snd ?s0)) opus_args
              = sheet_gap (sheet classroom) (grid_rows classroom) opus_args" by (rule mp)
  note p0 = r0 [THEN conjunct1]
  have s0: "same_sheet classroom (snd ?s0)" using r0 by (rule conjunct2 [THEN conjunct1])
  have e0: "extends is_sheet_write classroom (snd ?s0)"
    using r0 by (rule conjunct2 [THEN conjunct2, THEN conjunct1])
  have A: "fst (process_row (down_from 0) opus_args 3 ''adios'' ''F'' classroom) = Inr ()"
    "sheet (snd (process_row (down_from 0) opus_args 3 ''adios'' ''F'' classroom)) = lesson"
    "filter is_sheet_write
        (trace (snd (process_row (down_from 0) opus_args 3 ''adios'' ''F'' classroom))) = []"
    using s0 extends_filter [OF e0] by (simp_all add: p0 same_sheet_def c0)
  txt \<open>The synthesis and the fetch of the id succeed, every upload request fails.\<close>
  let ?w1 = "?start\<lparr>calls := calls ?start + 1, trace := trace ?start @ [TtsSynthesize ''adios'']\<rparr>"
  let ?w2 = "?w1\<lparr>calls := calls ?w1 + 1,
                  trace := trace ?w1 @ [SheetsGet (Span ''A'' 3 (Some 3))]\<rparr>"
  let ?up = "upload_audio_file_with_retry (down_from 2) ''F'' (make_filename 7) ''RIFF''
               (audio_encoding opus_args) ?w2"
  have h1: "synthesize_speech_with_retry (down_from 2) ''adios'' (voice_name opus_args)
               (speaking_rate opus_args) (audio_encoding opus_args) ?start = (Some ''RIFF'', ?w1)"
    by (simp add: synthesize_speech_with_retry_ok c0 down_from_def)
  have g1: "values_get (down_from 2) (Span (id_column opus_args) 3 (Some 3)) ?w1
            = (Inr [[''7'']], ?w2)"
  proof -
    have fz: "fault (down_from 2) (calls ?w1) = None" by (simp add: down_from_def c0)
    have rv: "range_valid (Span ''A'' 3 (Some 3))" by (simp add: range_valid_def)
    show ?thesis
      unfolding a0 values_get_ok [OF fz rv]
      by (simp add: c0 range_column_def lesson_id_3)
  qed
  have f1: "\<forall>i<5. fault (down_from 2) (calls ?w2 + i) \<noteq> None"
    by (simp add: down_from_def c0)
  note t1 = failed_row_writes_nothing [OF blank_adios h1, where row_num = 3 and folder = "''F''",
              THEN conjunct2, THEN conjunct2, rule_format,
              of "''RIFF''" "[[''7'']]" ?w2 "''7''" 7 "fst ?up" "snd ?up"]
  have pre: "Some ''RIFF'' = Some ''RIFF'' \<and> ''RIFF'' \<noteq> []
     \<and> values_get (down_from 2) (Span (id_column opus_args) 3 (Some 3)) ?w1 = (Inr [[''7'']], ?w2)
     \<and> first_cell [[''7'']] = Inr ''7'' \<and> \<not> blank ''7'' \<and> py_int ''7'' = Some 7
     \<and> ?up = (fst ?up, snd ?up)"
    using g1 py_int_7 not_blank_7 by (simp add: first_cell_def)
  note u1 = t1 [OF pre]
  from u1 [THEN conjunct1] f1 have "fst ?up = None" by (rule mp)
  then have "falsy (fst ?up)" by (simp add: falsy_def)
  with u1 [THEN conjunct2]
  have r1: "process_row (down_from 2) opus_args 3 ''adios'' ''F'' classroom = (Inr (), snd ?up)
          \<and> same_sheet classroom (snd ?up) \<and> extends is_sheet_write classroom (snd ?up)
          \<and> sheet_gap (sheet (snd ?up)) (grid_rows (snd ?up)) opus_args
              = sheet_gap (sheet classroom) (grid_rows classroom) opus_args" by (rule mp)
  note p1 = r1 [THEN conjunct1]
  have s1: "same_sheet classroom (snd ?up)" using r1 by (rule conjunct2 [THEN conjunct1])
  have e1: "extends is_sheet_write classroom (snd ?up)"
    using r1 by (rule conjunct2 [THEN conjunct2, THEN conjunct1])
  have B: "fst (process_row (down_from 2) opus_args 3 ''adios'' ''F'' classroom) = Inr ()"
    "sheet (snd (process_row (down_from 2) opus_args 3 ''adios'' ''F'' classroom)) = lesson"
    "filter is_sheet_write
        (trace (snd (process_row (down_from 2) opus_args 3 ''adios'' ''F'' classroom))) = []"
    using s1 extends_filter [OF e1] by (simp_all add: p1 same_sheet_def c0)
  have f4: "fault (down_from 0) 4 = Some (HttpError ''503'')" by (simp add: down_from_def)
  from blank_adios f4 A B show ?thesis by (intro conjI)
qed

section \<open>A marker that cannot be written\<close>

text \<open>
  C10. When the write of the marker cell fails after all retries, that is, when the
  executor leaves \<open>update_call\<close> with an exception \<open>e\<close>,
  \<open>update_sheet_cells_with_retry\<close> logs an error, chosen by the class of \<open>e\<close>, and
  returns \<open>None\<close>; \<open>process_row\<close> returns normally in that world, the loop over the
  rows goes on with the next row, and no cell of the sheet has changed, so the gap of
  the sheet is what it was.
\<close>

theorem marker_write_failure_is_swallowed:
  assumes nb: "\<not> blank sentence"
    and synth: "synthesize_speech_with_retry sv sentence (voice_name a) (speaking_rate a)
                  (audio_encoding a) (log INFO ''Synthesizing audio for row'' w)
                = (Some content, w1)"
    and content: "content \<noteq> []"
    and idget: "values_get sv (Span (id_column a) row_num (Some row_num)) w1 = (Inr vals, w2)"
    and cell: "first_cell vals = Inr sentence_id"
    and nbid: "\<not> blank sentence_id"
    and num: "py_int sentence_id = Some n"
    and upload: "upload_audio_file_with_retry sv folder (make_filename n) content
                   (audio_encoding a) w2 = (Some link, w3)"
    and link: "link \<noteq> []"
    and wr: "exponential_backoff_retry sv
                  (update_call sv row_num (audio_link_column a)
                     [hyperlink_formula link (make_filename n)])
                  5 1 16 (log INFO ''Uploaded audio for row'' w3) = (Inl e, w4)"
    and w5: "w5 = log ERROR (case e of
                      HttpError x \<Rightarrow> ''Google Sheets API error while updating cells''
                    | PyError x \<Rightarrow> ''Unexpected error while updating cells'') w4"
  shows "update_sheet_cells_with_retry sv row_num (audio_link_column a)
           [hyperlink_formula link (make_filename n)] 5 (log INFO ''Uploaded audio for row'' w3)
         = (None, w5)
       \<and> process_row sv a row_num sentence folder w = (Inr (), w5)
       \<and> same_sheet w w5
       \<and> sheet_gap (sheet w5) (grid_rows w5) a = sheet_gap (sheet w) (grid_rows w) a
       \<and> (\<forall>texts rest. py_index texts (row_num - start_row a) = Inr sentence \<longrightarrow>
             process_rows sv a texts folder (row_num # rest) w
             = process_rows sv a texts folder rest w5)"
proof -
  note sw = update_sheet_cells_with_retry_swallows [OF wr]
  have u: "update_sheet_cells_with_retry sv row_num (audio_link_column a)
           [hyperlink_formula link (make_filename n)] 5 (log INFO ''Uploaded audio for row'' w3)
         = (None, w5)"
    unfolding w5 by (rule sw(1))
  have p: "process_row sv a row_num sentence folder w = (Inr (), w5)"
    unfolding process_row_write [OF nb synth content idget cell nbid num upload link] u by simp
  have "same_sheet w w3" by (rule upload_step_frame(1) [OF synth idget upload])
  moreover have "same_sheet w3 w5" using sw(2) by (simp add: w5)
  ultimately have s: "same_sheet w w5" by (rule same_sheet_trans)
  have g: "sheet_gap (sheet w5) (grid_rows w5) a = sheet_gap (sheet w) (grid_rows w) a"
    by (rule same_sheet_gap [OF s])
  have r: "\<forall>texts rest. py_index texts (row_num - start_row a) = Inr sentence \<longrightarrow>
             process_rows sv a texts folder (row_num # rest) w
             = process_rows sv a texts folder rest w5"
    by (simp add: p)
  from u p s g r show ?thesis by (intro conjI)
qed

theorem marker_write_failure_is_swallowed_witness:
  "fault (down_from 3) 3 = Some (HttpError ''503'')
   \<and> fst (process_row (down_from 3) opus_args 3 ''adios'' ''F'' classroom) = Inr ()
   \<and> sheet (snd (process_row (down_from 3) opus_args 3 ''adios'' ''F'' classroom)) = lesson
   \<and> sheet_gap (sheet (snd (process_row (down_from 3) opus_args 3 ''adios'' ''F'' classroom)))
        (grid_rows (snd (process_row (down_from 3) opus_args 3 ''adios'' ''F'' classroom)))
        opus_args = sheet_gap lesson 4 opus_args
   \<and> process_rows (down_from 3) opus_args [''hola'', ''adios''] ''F'' [3] classroom
       = (Inr (), snd (process_row (down_from 3) opus_args 3 ''adios'' ''F'' classroom))"
proof -
  let ?start = "log INFO ''Synthesizing audio for row'' classroom"
  have c0: "calls classroom = 0" "trace classroom = []" "sheet classroom = lesson"
    "grid_rows classroom = 4"
    by (simp_all add: classroom_def)
  have a0: "voice_name opus_args = ''es-ES-Standard-A''" "speaking_rate opus_args = 1"
    "audio_encoding opus_args = OGG_OPUS" "id_column opus_args = ''A''"
    "audio_link_column opus_args = ''D''" "start_row opus_args = 2"
    by (simp_all add: opus_args_def)
  let ?w1 = "?start\<lparr>calls := calls ?start + 1, trace := trace ?start @ [TtsSynthesize ''adios'']\<rparr>"
  let ?w2 = "?w1\<lparr>calls := calls ?w1 + 1,
                  trace := trace ?w1 @ [SheetsGet (Span ''A'' 3 (Some 3))]\<rparr>"
  let ?w3 = "log INFO ''Uploaded file to folder''
               (?w2\<lparr>calls := calls ?w2 + 1,
                    trace := trace ?w2 @ [DriveUpload ''F'' (make_filename 7) (get_mime_type OGG_OPUS)]\<rparr>)"
  let ?formula = "hyperlink_formula ''http://l'' (make_filename 7)"
  let ?x = "exponential_backoff_retry (down_from 3)
              (update_call (down_from 3) 3 (audio_link_column opus_args) [?formula])
              5 1 16 (log INFO ''Uploaded audio for row'' ?w3)"
  let ?w5 = "log ERROR (case projl (fst ?x) of
                      HttpError x \<Rightarrow> ''Google Sheets API error while updating cells''
                    | PyError x \<Rightarrow> ''Unexpected error while updating cells'') (snd ?x)"
  have h1: "synthesize_speech_with_retry (down_from 3) ''adios'' (voice_name opus_args)
               (speaking_rate opus_args) (audio_encoding opus_args) ?start = (Some ''RIFF'', ?w1)"
    by (simp add: synthesize_speech_with_retry_ok c0 down_from_def)
  have g1: "values_get (down_from 3) (Span (id_column opus_args) 3 (Some 3)) ?w1
            = (Inr [[''7'']], ?w2)"
  proof -
    have fz: "fault (down_from 3) (calls ?w1) = None" by (simp add: down_from_def c0)
    have rv: "range_valid (Span ''A'' 3 (Some 3))" by (simp add: range_valid_def)
    show ?thesis
      unfolding a0 values_get_ok [OF fz rv]
      by (simp add: c0 range_column_def lesson_id_3)
  qed
  have u1: "upload_audio_file_with_retry (down_from 3) ''F'' (make_filename 7) ''RIFF''
              (audio_encoding opus_args) ?w2 = (Some ''http://l'', ?w3)"
  proof -
    have fz: "fault (down_from 3) (calls ?w2) = None" by (simp add: down_from_def c0)
    show ?thesis
      unfolding a0 upload_audio_file_with_retry_ok [OF fz]
      by (simp add: c0) (simp add: down_from_def)
  qed
  have "isl (fst ?x)"
  proof (rule update_call_exhausted)
    fix i :: nat
    show "fault (down_from 3) (calls (log INFO ''Uploaded audio for row'' ?w3) + i) \<noteq> None"
      by (simp add: c0 down_from_def)
  qed
  then have wr: "?x = (Inl (projl (fst ?x)), snd ?x)" by (simp add: prod_eq_iff)
  have fc: "first_cell [[''7'']] = Inr ''7''" by (simp add: first_cell_def)
  have ne: "''RIFF'' \<noteq> []" "''http://l'' \<noteq> []" by simp_all
  note t = marker_write_failure_is_swallowed
             [OF blank_adios h1 ne(1) g1 fc not_blank_7 py_int_7 u1 ne(2) wr refl]
  note p = t [THEN conjunct2, THEN conjunct1]
  note s = t [THEN conjunct2, THEN conjunct2, THEN conjunct1]
  note g = t [THEN conjunct2, THEN conjunct2, THEN conjunct2, THEN conjunct1]
  note r = t [THEN conjunct2, THEN conjunct2, THEN conjunct2, THEN conjunct2, rule_format,
              of "[''hola'', ''adios'']" "[]"]
  have ix: "py_index [''hola'', ''adios''] (3 - start_row opus_args) = Inr ''adios''"
    by (simp add: py_index_def a0)
  have A: "fault (down_from 3) 3 = Some (HttpError ''503'')" by (simp add: down_from_def)
  have B: "fst (process_row (down_from 3) opus_args 3 ''adios'' ''F'' classroom) = Inr ()"
    by (simp add: p)
  have C: "sheet (snd (process_row (down_from 3) opus_args 3 ''adios'' ''F'' classroom)) = lesson"
    using s by (simp add: p same_sheet_def c0)
  have D: "sheet_gap (sheet (snd (process_row (down_from 3) opus_args 3 ''adios'' ''F'' classroom)))
        (grid_rows (snd (process_row (down_from 3) opus_args 3 ''adios'' ''F'' classroom)))
        opus_args = sheet_gap lesson 4 opus_args"
    using g by (simp add: p c0)
  have E: "process_rows (down_from 3) opus_args [''hola'', ''adios''] ''F'' [3] classroom
       = (Inr (), snd (process_row (down_from 3) opus_args 3 ''adios'' ''F'' classroom))"
    unfolding r [OF ix] by (simp add: p)
  from A B C D E show ?thesis by (intro conjI)
qed

section \<open>The name of the audio file and the id of a row\<close>

lemma make_filename_7: "make_filename 7 = ''sentence_000007.mp3''"
  by code_simp

lemma py_int_abc: "py_int ''abc'' = None"
  by code_simp

lemma not_blank_abc: "\<not> blank ''abc''"
  by (simp add: blank_Cons py_isspace_def)

lemma not_blank_hola: "\<not> blank ''hola''"
  by (simp add: blank_Cons py_isspace_def)

lemma lesson_id_2:
  "api_values (map (lesson ''A'') (range_rows (Span ''A'' 2 (Some 2)) 4)) = [[''abc'']]"
  by (simp add: range_rows_def lesson_def api_values_def trim_empty_def)

text \<open>
  C7. A row that is processed with the encoding \<open>OGG_OPUS\<close>: the file is uploaded with
  the media type \<open>audio/ogg\<close> under a name that ends in \<open>.mp3\<close>, and the marker
  written is the hyperlink formula with the link and that name.
\<close>

theorem ogg_audio_is_named_mp3:
  "audio_encoding opus_args = OGG_OPUS
   \<and> fst (process_row (down_from 4) opus_args 3 ''adios'' ''F'' classroom) = Inr ()
   \<and> trace (snd (process_row (down_from 4) opus_args 3 ''adios'' ''F'' classroom))
       = [Log INFO ''Synthesizing audio for row'', TtsSynthesize ''adios'',
          SheetsGet (Span ''A'' 3 (Some 3)),
          DriveUpload ''F'' ''sentence_000007.mp3'' ''audio/ogg'',
          Log INFO ''Uploaded file to folder'', Log INFO ''Uploaded audio for row'',
          SheetsUpdate (Span ''D'' 3 None)
            [''=HYPERLINK('' @ [CHR 0x22] @ ''http://l'' @ [CHR 0x22] @ '', '' @ [CHR 0x22]
               @ ''sentence_000007.mp3'' @ [CHR 0x22] @ '')'']]
   \<and> sheet (snd (process_row (down_from 4) opus_args 3 ''adios'' ''F'' classroom)) ''D'' 3
       = ''=HYPERLINK('' @ [CHR 0x22] @ ''http://l'' @ [CHR 0x22] @ '', '' @ [CHR 0x22]
           @ ''sentence_000007.mp3'' @ [CHR 0x22] @ '')''"
proof -
  let ?start = "log INFO ''Synthesizing audio for row'' classroom"
  have c0: "calls classroom = 0" "trace classroom = []" "sheet classroom = lesson"
    "grid_rows classroom = 4"
    by (simp_all add: classroom_def)
  have a0: "voice_name opus_args = ''es-ES-Standard-A''" "speaking_rate opus_args = 1"
    "audio_encoding opus_args = OGG_OPUS" "id_column opus_args = ''A''"
    "audio_link_column opus_args = ''D''" "start_row opus_args = 2"
    by (simp_all add: opus_args_def)
  let ?w1 = "?start\<lparr>calls := calls ?start + 1, trace := trace ?start @ [TtsSynthesize ''adios'']\<rparr>"
  let ?w2 = "?w1\<lparr>calls := calls ?w1 + 1,
                  trace := trace ?w1 @ [SheetsGet (Span ''A'' 3 (Some 3))]\<rparr>"
  let ?w3 = "log INFO ''Uploaded file to folder''
               (?w2\<lparr>calls := calls ?w2 + 1,
                    trace := trace ?w2 @ [DriveUpload ''F'' (make_filename 7) (get_mime_type OGG_OPUS)]\<rparr>)"
  let ?w4 = "log INFO ''Uploaded audio for row'' ?w3"
  let ?formula = "hyperlink_formula ''http://l'' (make_filename 7)"
  have h1: "synthesize_speech_with_retry (down_from 4) ''adios'' (voice_name opus_args)
               (speaking_rate opus_args) (audio_encoding opus_args) ?start = (Some ''RIFF'', ?w1)"
    by (simp add: synthesize_speech_with_retry_ok c0 down_from_def)
  have g1: "values_get (down_from 4) (Span (id_column opus_args) 3 (Some 3)) ?w1
            = (Inr [[''7'']], ?w2)"
  proof -
    have fz: "fault (down_from 4) (calls ?w1) = None" by (simp add: down_from_def c0)
    have rv: "range_valid (Span ''A'' 3 (Some 3))" by (simp add: range_valid_def)
    show ?thesis
      unfolding a0 values_get_ok [OF fz rv]
      by (simp add: c0 range_column_def lesson_id_3)
  qed
  have u1: "upload_audio_file_with_retry (down_from 4) ''F'' (make_filename 7) ''RIFF''
              (audio_encoding opus_args) ?w2 = (Some ''http://l'', ?w3)"
  proof -
    have fz: "fault (down_from 4) (calls ?w2) = None" by (simp add: down_from_def c0)
    show ?thesis
      unfolding a0 upload_audio_file_with_retry_ok [OF fz]
      by (simp add: c0) (simp add: down_from_def)
  qed
  have fz: "fault (down_from 4) (calls ?w4) = None" by (simp add: down_from_def c0)
  have fits: "3 + int (length [?formula]) - 1 \<le> grid_rows ?w4" by (simp add: c0)
  have wr: "update_sheet_cells_with_retry (down_from 4) 3 (audio_link_column opus_args)
              [?formula] 5 ?w4
            = (Some (), ?w4\<lparr>calls := calls ?w4 + 1,
                  trace := trace ?w4 @ [SheetsUpdate (Span (audio_link_column opus_args) 3 None) [?formula]],
                  sheet := (sheet ?w4)(audio_link_column opus_args :=
                     write_cells (sheet ?w4 (audio_link_column opus_args)) 3 [?formula])\<rparr>)"
    by (rule update_sheet_cells_with_retry_ok [OF fz _ fits]) simp_all
  have fc: "first_cell [[''7'']] = Inr ''7''" by (simp add: first_cell_def)
  have ne: "''RIFF'' \<noteq> []" "''http://l'' \<noteq> []" by simp_all
  note p = process_row_write [OF blank_adios h1 ne(1) g1 fc not_blank_7 py_int_7 u1 ne(2)]
  show ?thesis
    unfolding p wr
    by (simp add: a0 c0 make_filename_7 hyperlink_formula_def get_mime_type_def)
qed

lemma process_row_id_fetch_failed:
  assumes "\<not> blank sentence"
    and "synthesize_speech_with_retry sv sentence (voice_name a) (speaking_rate a)
           (audio_encoding a) (log INFO ''Synthesizing audio for row'' w) = (Some content, w1)"
    and "content \<noteq> []"
    and "values_get sv (Span (id_column a) row_num (Some row_num)) w1 = (Inl e, w2)"
  shows "process_row sv a row_num sentence folder w = (Inl e, w2)"
  using assms by (simp add: process_row_def falsy_def)

lemma process_row_id_not_a_number:
  assumes "\<not> blank sentence"
    and "synthesize_speech_with_retry sv sentence (voice_name a) (speaking_rate a)
           (audio_encoding a) (log INFO ''Synthesizing audio for row'' w) = (Some content, w1)"
    and "content \<noteq> []"
    and "values_get sv (Span (id_column a) row_num (Some row_num)) w1 = (Inr vals, w2)"
    and "first_cell vals = Inr sentence_id" and "\<not> blank sentence_id"
    and "py_int sentence_id = None"
  shows "process_row sv a row_num sentence folder w = (Inl (PyError ''ValueError''), w2)"
  using assms by (simp add: process_row_def falsy_def)

lemma process_rows_raises:
  assumes "py_index texts (row_num - start_row a) = Inr sentence"
    and "process_row sv a row_num sentence folder w = (Inl e, w')"
  shows "process_rows sv a texts folder (row_num # rest) w = (Inl e, w')"
  using assms by simp

text \<open>
  C5. The gap of \<open>lesson\<close> is the rows 2 and 3. The id of row 2 is not a number: the
  \<open>ValueError\<close> of \<open>int\<close> leaves \<open>process_row\<close> and the loop over the rows, and
  row 3 is never processed. The same happens with the error of the service when the
  fetch of the id fails. Nothing is logged in either case.
\<close>

theorem id_failure_aborts_rows:
  "sheet_gap lesson 4 opus_args = [2, 3]
   \<and> fst (process_rows (down_from 9) opus_args [''hola'', ''adios''] ''F'' [2, 3] classroom)
       = Inl (PyError ''ValueError'')
   \<and> trace (snd (process_rows (down_from 9) opus_args [''hola'', ''adios''] ''F'' [2, 3] classroom))
       = [Log INFO ''Synthesizing audio for row'', TtsSynthesize ''hola'',
          SheetsGet (Span ''A'' 2 (Some 2))]
   \<and> fst (process_rows (down_from 1) opus_args [''hola'', ''adios''] ''F'' [2, 3] classroom)
       = Inl (HttpError ''503'')
   \<and> trace (snd (process_rows (down_from 1) opus_args [''hola'', ''adios''] ''F'' [2, 3] classroom))
       = [Log INFO ''Synthesizing audio for row'', TtsSynthesize ''hola'',
          SheetsGet (Span ''A'' 2 (Some 2))]"
proof -
  let ?start = "log INFO ''Synthesizing audio for row'' classroom"
  have c0: "calls classroom = 0" "trace classroom = []" "sheet classroom = lesson"
    "grid_rows classroom = 4"
    by (simp_all add: classroom_def)
  have a0: "voice_name opus_args = ''es-ES-Standard-A''" "speaking_rate opus_args = 1"
    "audio_encoding opus_args = OGG_OPUS" "id_column opus_args = ''A''"
    "audio_link_column opus_args = ''D''" "start_row opus_args = 2"
    "text_column opus_args = ''C''"
    by (simp_all add: opus_args_def)
  let ?w1 = "?start\<lparr>calls := calls ?start + 1, trace := trace ?start @ [TtsSynthesize ''hola'']\<rparr>"
  let ?w2 = "?w1\<lparr>calls := calls ?w1 + 1,
                  trace := trace ?w1 @ [SheetsGet (Span ''A'' 2 (Some 2))]\<rparr>"
  have gap: "sheet_gap lesson 4 opus_args = [2, 3]"
    by code_simp
  have ix: "py_index [''hola'', ''adios''] (2 - start_row opus_args) = Inr ''hola''"
    by (simp add: py_index_def a0)
  have h9: "synthesize_speech_with_retry (down_from 9) ''hola'' (voice_name opus_args)
               (speaking_rate opus_args) (audio_encoding opus_args) ?start = (Some ''RIFF'', ?w1)"
    by (simp add: synthesize_speech_with_retry_ok c0 down_from_def)
  have g9: "values_get (down_from 9) (Span (id_column opus_args) 2 (Some 2)) ?w1
            = (Inr [[''abc'']], ?w2)"
  proof -
    have fz: "fault (down_from 9) (calls ?w1) = None" by (simp add: down_from_def c0)
    have rv: "range_valid (Span ''A'' 2 (Some 2))" by (simp add: range_valid_def)
    show ?thesis
      unfolding a0 values_get_ok [OF fz rv]
      by (simp add: c0 range_column_def lesson_id_2)
  qed
  have p9: "process_row (down_from 9) opus_args 2 ''hola'' ''F'' classroom
            = (Inl (PyError ''ValueError''), ?w2)"
    by (rule process_row_id_not_a_number [OF not_blank_hola h9 _ g9 _ not_blank_abc py_int_abc])
       (simp_all add: first_cell_def)
  have r9: "process_rows (down_from 9) opus_args [''hola'', ''adios''] ''F'' [2, 3] classroom
            = (Inl (PyError ''ValueError''), ?w2)"
    by (rule process_rows_raises [OF ix p9])
  have h1: "synthesize_speech_with_retry (down_from 1) ''hola'' (voice_name opus_args)
               (speaking_rate opus_args) (audio_encoding opus_args) ?start = (Some ''RIFF'', ?w1)"
    by (simp add: synthesize_speech_with_retry_ok c0 down_from_def)
  have g1: "values_get (down_from 1) (Span (id_column opus_args) 2 (Some 2)) ?w1
            = (Inl (HttpError ''503''), ?w2)"
    by (simp add: values_get_def remote_def a0 c0) (simp add: down_from_def)
  have p1: "process_row (down_from 1) opus_args 2 ''hola'' ''F'' classroom
            = (Inl (HttpError ''503''), ?w2)"
    by (rule process_row_id_fetch_failed [OF not_blank_hola h1 _ g1]) simp
  have r1: "process_rows (down_from 1) opus_args [''hola'', ''adios''] ''F'' [2, 3] classroom
            = (Inl (HttpError ''503''), ?w2)"
    by (rule process_rows_raises [OF ix p1])
  show ?thesis unfolding r9 r1 using gap by (simp add: c0)
qed

section \<open>The driver up to the comparison of the two columns\<close>

lemma find_rows_needing_audio_min:
  "fst (find_rows_needing_audio ms ss sr) =
     map (\<lambda>i. sr + int i)
       (filter (\<lambda>i. \<not> blank (ss ! i) \<and> blank (ms ! i)) [0..<min (length ms) (length ss)])"
proof -
  let ?k = "min (length ms) (length ss)"
  have len: "length (take ?k ms) = length (take ?k ss)" by simp
  have "fst (find_rows_needing_audio ms ss sr)
        = fst (find_rows_needing_audio (take ?k ms) (take ?k ss) sr)"
    by (rule find_rows_needing_audio_take)
  also have "\<dots> = map (\<lambda>i. sr + int i)
       (filter (\<lambda>i. \<not> blank (take ?k ss ! i) \<and> blank (take ?k ms ! i))
          [0..<length (take ?k ss)])"
    by (rule find_rows_needing_audio_rows [OF len])
  also have "\<dots> = map (\<lambda>i. sr + int i)
       (filter (\<lambda>i. \<not> blank (ss ! i) \<and> blank (ms ! i)) [0..<?k])"
  proof -
    have "filter (\<lambda>i. \<not> blank (take ?k ss ! i) \<and> blank (take ?k ms ! i)) [0..<?k]
          = filter (\<lambda>i. \<not> blank (ss ! i) \<and> blank (ms ! i)) [0..<?k]"
      by (rule filter_cong) simp_all
    then show ?thesis by simp
  qed
  finally show ?thesis .
qed

lemma main_length_mismatch:
  assumes "0 < speaking_rate a"
    and "get_spreadsheet_title sv
           (test_google_services sv (log INFO ''Testing Google services...'' w)) = (Inr title, w1)"
    and "ensure_column_header sv (audio_link_column a) ''audio_file'' w1 = (Inr u, w2)"
    and "read_sheet_column sv (text_column a) (start_row a) None w2 = (Inr text_values, w3)"
    and "read_sheet_column sv (audio_link_column a) (start_row a)
           (Some (int (length text_values))) w3 = (Inr audio_values, w4)"
    and "length audio_values \<noteq> length text_values"
  shows "main sv a w
         = (Inl (SysExit 1), log ERROR ''Audio column and text column must match.'' w4)"
  using assms by (simp add: main_def)

lemma startup_ok:
  assumes "fault sv (calls w) = None" and "fault sv (calls w + 1) = None"
    and "fault sv (calls w + 2) = None" and "fault sv (calls w + 3) = None"
  shows "get_spreadsheet_title sv
           (test_google_services sv (log INFO ''Testing Google services...'' w))
         = (Inr (case sheet_title sv (calls w + 3) of None \<Rightarrow> ''Untitled_Sheet'' | Some t \<Rightarrow> t),
            w\<lparr>calls := calls w + 4,
              trace := trace w @ [Log INFO ''Testing Google services...'', SheetsMeta,
                Log INFO ''Google Sheets API is working correctly.'', DriveList,
                Log INFO ''Google Drive API is working correctly.'',
                TtsSynthesize ''Test audio'',
                Log INFO ''Google Text-to-Speech API is working correctly.'', SheetsMeta]\<rparr>)"
  using assms
  by (simp add: get_spreadsheet_title_def test_google_services_def remote_def log_def
        numeral_eq_Suc)

lemma ensure_column_header_ok:
  assumes "fault sv (calls w) = None" and "1 \<le> grid_rows w"
  shows "ensure_column_header sv c h w
         = (Inr (), w\<lparr>calls := calls w + 1, trace := trace w @ [SheetsUpdate (Cell c 1) [h]],
                      sheet := (sheet w)(c := (sheet w c)(1 := h))\<rparr>)"
  using assms
  by (simp add: ensure_column_header_def values_update_def remote_def range_valid_def
        update_fits_def range_first_def range_column_def)

lemma read_sheet_column_ok:
  assumes "fault sv (calls w) = None" and "1 \<le> r"
    and "case force of None \<Rightarrow> True | Some n \<Rightarrow> 0 \<le> n"
  shows "read_sheet_column sv c r force w
         = (Inr (read_column (sheet w) (grid_rows w) c r force),
            w\<lparr>calls := calls w + 1,
              trace := trace w @ [SheetsGet (Span c r (read_range_end r force))]\<rparr>)"
proof -
  have rv: "range_valid (Span c r (read_range_end r force))"
    using assms(2,3) by (auto simp: range_valid_def read_range_end_def split: option.splits)
  show ?thesis
    unfolding read_sheet_column_def values_get_ok [OF assms(1) rv]
    by (simp add: read_column_def range_column_def)
qed

text \<open>
  C6 (as stated, refuted). For one marker and two sources the detector returns the row
  of the first position, where the contract of the specification demands an alignment
  error.
\<close>

theorem unequal_lengths_counterexample:
  "length [''''] \<noteq> length [''a'', ''b'']
   \<and> find_rows_needing_audio [''''] [''a'', ''b''] 2 = ([2], [])
   \<and> find_gap_contract [''''] [''a'', ''b''] 2 = Inl AlignmentError"
  by (simp add: find_rows_needing_audio_def find_gap_contract_def enumerate_eq_zip
        py_isspace_def upt_rec blank_Cons)

text \<open>
  C6 (amended). The gap detector has no precondition on the lengths and never fails: for
  sequences of any lengths it returns the rows of the positions below the shorter length
  whose source is not blank and whose marker is blank. Equal lengths are required by the
  driver: when the two columns it has read differ in length, \<open>main\<close> logs an error and
  ends the process with status 1.
\<close>

theorem gap_detector_checks_no_lengths:
  "fst (find_rows_needing_audio markers sources sr) =
     map (\<lambda>i. sr + int i)
       (filter (\<lambda>i. \<not> blank (sources ! i) \<and> blank (markers ! i))
          [0..<min (length markers) (length sources)])
   \<and> (0 < speaking_rate a
        \<and> get_spreadsheet_title sv
            (test_google_services sv (log INFO ''Testing Google services...'' w)) = (Inr title, w1)
        \<and> ensure_column_header sv (audio_link_column a) ''audio_file'' w1 = (Inr u, w2)
        \<and> read_sheet_column sv (text_column a) (start_row a) None w2 = (Inr text_values, w3)
        \<and> read_sheet_column sv (audio_link_column a) (start_row a)
            (Some (int (length text_values))) w3 = (Inr audio_values, w4)
        \<and> length audio_values \<noteq> length text_values
      \<longrightarrow> main sv a w
          = (Inl (SysExit 1), log ERROR ''Audio column and text column must match.'' w4))"
proof (intro conjI impI)
  show "fst (find_rows_needing_audio markers sources sr) =
     map (\<lambda>i. sr + int i)
       (filter (\<lambda>i. \<not> blank (sources ! i) \<and> blank (markers ! i))
          [0..<min (length markers) (length sources)])"
    by (rule find_rows_needing_audio_min)
next
  assume "0 < speaking_rate a
        \<and> get_spreadsheet_title sv
            (test_google_services sv (log INFO ''Testing Google services...'' w)) = (Inr title, w1)
        \<and> ensure_column_header sv (audio_link_column a) ''audio_file'' w1 = (Inr u, w2)
        \<and> read_sheet_column sv (text_column a) (start_row a) None w2 = (Inr text_values, w3)
        \<and> read_sheet_column sv (audio_link_column a) (start_row a)
            (Some (int (length text_values))) w3 = (Inr audio_values, w4)
        \<and> length audio_values \<noteq> length text_values"
  then show "main sv a w
          = (Inl (SysExit 1), log ERROR ''Audio column and text column must match.'' w4)"
    by (intro main_length_mismatch [where title = title and ?w1.0 = w1 and u = u and ?w2.0 = w2
          and ?w3.0 = w3 and text_values = text_values and audio_values = audio_values]) simp_all
qed

theorem gap_detector_checks_no_lengths_witness:
  "fst (find_rows_needing_audio [''''] [''a'', ''b''] 2) = [2]
   \<and> read_column (with_header stray opus_args) 4 ''C'' 2 None = []
   \<and> read_column (with_header stray opus_args) 4 ''D'' 2 (Some 0) = [''x'']
   \<and> fst (main (down_from 7) opus_args attic) = Inl (SysExit 1)
   \<and> trace (snd (main (down_from 7) opus_args attic))
       = [Log INFO ''Testing Google services...'', SheetsMeta,
          Log INFO ''Google Sheets API is working correctly.'', DriveList,
          Log INFO ''Google Drive API is working correctly.'',
          TtsSynthesize ''Test audio'',
          Log INFO ''Google Text-to-Speech API is working correctly.'', SheetsMeta,
          SheetsUpdate (Cell ''D'' 1) [''audio_file''],
          SheetsGet (Span ''C'' 2 None), SheetsGet (Span ''D'' 2 None),
          Log ERROR ''Audio column and text column must match.'']"
proof -
  have c0: "calls attic = 0" "trace attic = []" "sheet attic = stray" "grid_rows attic = 4"
    by (simp_all add: attic_def)
  have a0: "speaking_rate opus_args = 1" "audio_link_column opus_args = ''D''"
    "start_row opus_args = 2" "text_column opus_args = ''C''"
    by (simp_all add: opus_args_def)
  have wh: "with_header stray opus_args = stray(''D'' := (stray ''D'')(1 := ''audio_file''))"
    by (simp add: with_header_def a0)
  have rc: "read_column (with_header stray opus_args) 4 ''C'' 2 None = []"
    unfolding wh by code_simp
  have rd: "read_column (with_header stray opus_args) 4 ''D'' 2 (Some 0) = [''x'']"
    unfolding wh by code_simp
  let ?w1 = "attic\<lparr>calls := calls attic + 4,
              trace := trace attic @ [Log INFO ''Testing Google services...'', SheetsMeta,
                Log INFO ''Google Sheets API is working correctly.'', DriveList,
                Log INFO ''Google Drive API is working correctly.'',
                TtsSynthesize ''Test audio'',
                Log INFO ''Google Text-to-Speech API is working correctly.'', SheetsMeta]\<rparr>"
  let ?w2 = "?w1\<lparr>calls := calls ?w1 + 1,
                 trace := trace ?w1 @ [SheetsUpdate (Cell ''D'' 1) [''audio_file'']],
                 sheet := (sheet ?w1)(''D'' := (sheet ?w1 ''D'')(1 := ''audio_file''))\<rparr>"
  let ?w3 = "?w2\<lparr>calls := calls ?w2 + 1,
                 trace := trace ?w2 @ [SheetsGet (Span ''C'' 2 (read_range_end 2 None))]\<rparr>"
  let ?w4 = "?w3\<lparr>calls := calls ?w3 + 1,
                 trace := trace ?w3 @ [SheetsGet (Span ''D'' 2 (read_range_end 2 (Some 0)))]\<rparr>"
  have s1: "get_spreadsheet_title (down_from 7)
              (test_google_services (down_from 7) (log INFO ''Testing Google services...'' attic))
            = (Inr ''Deck'', ?w1)"
  proof -
    have f: "fault (down_from 7) (calls attic) = None" "fault (down_from 7) (calls attic + 1) = None"
      "fault (down_from 7) (calls attic + 2) = None" "fault (down_from 7) (calls attic + 3) = None"
      by (simp_all add: down_from_def c0)
    show ?thesis unfolding startup_ok [OF f] by (simp add: down_from_def)
  qed
  have s2: "ensure_column_header (down_from 7) (audio_link_column opus_args) ''audio_file'' ?w1
            = (Inr (), ?w2)"
  proof -
    have f: "fault (down_from 7) (calls ?w1) = None" by (simp add: down_from_def c0)
    have g: "1 \<le> grid_rows ?w1" by (simp add: c0)
    show ?thesis unfolding a0 by (rule ensure_column_header_ok [OF f g])
  qed
  have s3: "read_sheet_column (down_from 7) (text_column opus_args) (start_row opus_args) None ?w2
            = (Inr [], ?w3)"
  proof -
    have f: "fault (down_from 7) (calls ?w2) = None" by (simp add: down_from_def c0)
    have "read_column (sheet ?w2) (grid_rows ?w2) ''C'' 2 None = []"
      using rc by (simp add: c0 wh)
    moreover have "read_sheet_column (down_from 7) ''C'' 2 None ?w2
          = (Inr (read_column (sheet ?w2) (grid_rows ?w2) ''C'' 2 None), ?w3)"
      by (rule read_sheet_column_ok [OF f]) simp_all
    ultimately show ?thesis unfolding a0 by simp
  qed
  have s4: "read_sheet_column (down_from 7) (audio_link_column opus_args) (start_row opus_args)
              (Some (int (length ([] :: string list)))) ?w3 = (Inr [''x''], ?w4)"
  proof -
    have f: "fault (down_from 7) (calls ?w3) = None" by (simp add: down_from_def c0)
    have "read_column (sheet ?w3) (grid_rows ?w3) ''D'' 2 (Some 0) = [''x'']"
      using rd by (simp add: c0 wh)
    moreover have "read_sheet_column (down_from 7) ''D'' 2 (Some 0) ?w3
          = (Inr (read_column (sheet ?w3) (grid_rows ?w3) ''D'' 2 (Some 0)), ?w4)"
      by (rule read_sheet_column_ok [OF f]) simp_all
    ultimately show ?thesis unfolding a0 by simp
  qed
  have pre: "0 < speaking_rate opus_args
        \<and> get_spreadsheet_title (down_from 7)
            (test_google_services (down_from 7) (log INFO ''Testing Google services...'' attic))
            = (Inr ''Deck'', ?w1)
        \<and> ensure_column_header (down_from 7) (audio_link_column opus_args) ''audio_file'' ?w1
            = (Inr (), ?w2)
        \<and> read_sheet_column (down_from 7) (text_column opus_args) (start_row opus_args) None ?w2
            = (Inr [], ?w3)
        \<and> read_sheet_column (down_from 7) (audio_link_column opus_args) (start_row opus_args)
            (Some (int (length ([] :: string list)))) ?w3 = (Inr [''x''], ?w4)
        \<and> length [''x''] \<noteq> length ([] :: string list)"
    using s1 s2 s3 s4 by (simp add: a0)
  note t = gap_detector_checks_no_lengths [of "['''']" "[''a'', ''b'']" 2]
  have A: "fst (find_rows_needing_audio [''''] [''a'', ''b''] 2) = [2]"
    unfolding t [THEN conjunct1] by (simp add: upt_rec blank_Cons py_isspace_def)
  note m = gap_detector_checks_no_lengths [THEN conjunct2, THEN mp, OF pre]
  have B: "fst (main (down_from 7) opus_args attic) = Inl (SysExit 1)"
    unfolding m by simp
  have C: "trace (snd (main (down_from 7) opus_args attic))
       = [Log INFO ''Testing Google services...'', SheetsMeta,
          Log INFO ''Google Sheets API is working correctly.'', DriveList,
          Log INFO ''Google Drive API is working correctly.'',
          TtsSynthesize ''Test audio'',
          Log INFO ''Google Text-to-Speech API is working correctly.'', SheetsMeta,
          SheetsUpdate (Cell ''D'' 1) [''audio_file''],
          SheetsGet (Span ''C'' 2 None), SheetsGet (Span ''D'' 2 None),
          Log ERROR ''Audio column and text column must match.'']"
    unfolding m by (simp add: c0 read_range_end_def)
  from A rc rd B C show ?thesis by (intro conjI)
qed

end
